theory Spec2Isabelle
  imports Complex_Main "HOL-Library.AList" "HOL-Library.Multiset"
begin

section \<open>Values and exceptions\<close>

text \<open>
  The monitor of \<^verbatim>\<open>system_monitor.py\<close> keeps its configuration as the object that
  \<^verbatim>\<open>json.load\<close> returns. A JSON object is kept as an association list in insertion
  order. Python floats and integers are both read as reals: the program compares and
  subtracts them, and the disk check divides and multiplies them, so a percentage here
  is the exact quotient where Python has the rounded one; Python compares an \<^verbatim>\<open>int\<close>
  with a \<^verbatim>\<open>float\<close> by value.
\<close>

datatype json =
    JNull
  | JBool bool
  | JNum real
  | JStr string
  | JArr "json list"
  | JObj "(string \<times> json) list"

datatype py_error =
    KeyError
  | TypeError
  | ZeroDivisionError
  | JSONDecodeError
  | OSError
  | SMTPException

text \<open>\<^verbatim>\<open>d[k]\<close>: a missing key of a dict raises KeyError, and subscripting a list, a string,
  a number, a bool or None with a string raises TypeError.\<close>

fun subscript :: "json \<Rightarrow> string \<Rightarrow> py_error + json" where
  "subscript (JObj kvs) k = (case map_of kvs k of None \<Rightarrow> Inl KeyError | Some v \<Rightarrow> Inr v)"
| "subscript _ k = Inl TypeError"

text \<open>\<^verbatim>\<open>x > y\<close> for a float \<^verbatim>\<open>x\<close> and a value \<^verbatim>\<open>y\<close> read from JSON: numbers compare by
  value, a bool counts as 0 or 1, anything else raises TypeError.\<close>

fun py_gt :: "real \<Rightarrow> json \<Rightarrow> py_error + bool" where
  "py_gt x (JNum y) = Inr (x > y)"
| "py_gt x (JBool b) = Inr (x > (if b then 1 else 0))"
| "py_gt x _ = Inl TypeError"

section \<open>The alert system object\<close>

record EmailAlertSystem =
  config :: json
  alert_history :: "string \<rightharpoonup> real"
  running :: bool

text \<open>\<^verbatim>\<open>self.alert_history.get(alert_type, 0)\<close>\<close>

definition history_get :: "(string \<rightharpoonup> real) \<Rightarrow> string \<Rightarrow> real" where
  "history_get h a = (case h a of None \<Rightarrow> 0 | Some t \<Rightarrow> t)"

text \<open>
  \<^verbatim>\<open>should_send_alert\<close>, lines 236 to 245. The reading of \<^verbatim>\<open>time.time()\<close> is the
  parameter \<open>now\<close>. The result is the exception raised, or the returned bool with the
  object after the call.
\<close>

definition should_send_alert ::
  "real \<Rightarrow> string \<Rightarrow> EmailAlertSystem \<Rightarrow> py_error + (bool \<times> EmailAlertSystem)" where
  "should_send_alert now alert_type self =
     (let last_sent = history_get (alert_history self) alert_type in
      case subscript (config self) ''monitoring'' of
        Inl e \<Rightarrow> Inl e
      | Inr monitoring \<Rightarrow>
          (case subscript monitoring ''cooldown_period'' of
             Inl e \<Rightarrow> Inl e
           | Inr cooldown \<Rightarrow>
               (case py_gt (now - last_sent) cooldown of
                  Inl e \<Rightarrow> Inl e
                | Inr True \<Rightarrow>
                    Inr (True, self\<lparr>alert_history := (alert_history self)(alert_type \<mapsto> now)\<rparr>)
                | Inr False \<Rightarrow> Inr (False, self))))"

text \<open>The number that \<^verbatim>\<open>self.config['monitoring']['cooldown_period']\<close> denotes, when the
  configuration holds one.\<close>

definition cooldown_period :: "json \<Rightarrow> real option" where
  "cooldown_period cfg =
     (case subscript cfg ''monitoring'' of
        Inl e \<Rightarrow> None
      | Inr monitoring \<Rightarrow>
          (case subscript monitoring ''cooldown_period'' of
             Inr (JNum c) \<Rightarrow> Some c
           | Inr (JBool b) \<Rightarrow> Some (if b then 1 else 0)
           | _ \<Rightarrow> None))"

section \<open>Loading the configuration\<close>

definition default_config :: json where
  "default_config = JObj
     [(''smtp'', JObj
         [(''server'', JStr ''smtp.gmail.com''),
          (''port'', JNum 587),
          (''username'', JStr ''your-email@gmail.com''),
          (''password'', JStr ''your-app-password''),
          (''use_tls'', JBool True)]),
      (''alerts'', JObj
         [(''from_email'', JStr ''alerts@yourcompany.com''),
          (''to_emails'', JArr [JStr ''admin1@yourcompany.com'', JStr ''admin2@yourcompany.com'']),
          (''subject_prefix'', JStr ''[SYSTEM ALERT]'')]),
      (''thresholds'', JObj
         [(''cpu_percent'', JNum 80),
          (''memory_percent'', JNum 85),
          (''disk_percent'', JNum 90),
          (''load_average'', JNum 4.0)]),
      (''monitoring'', JObj
         [(''check_interval'', JNum 60),
          (''cooldown_period'', JNum 300)])]"

text \<open>The entries of a dict in iteration order; only used on \<open>default_config\<close>.\<close>

fun items :: "json \<Rightarrow> (string \<times> json) list" where
  "items (JObj kvs) = kvs"
| "items _ = []"

fun starts_with :: "string \<Rightarrow> string \<Rightarrow> bool" where
  "starts_with [] s = True"
| "starts_with (c # cs) [] = False"
| "starts_with (c # cs) (d # ds) = (c = d \<and> starts_with cs ds)"

fun str_contains :: "string \<Rightarrow> string \<Rightarrow> bool" where
  "str_contains n [] = (n = [])"
| "str_contains n (c # cs) = (starts_with n (c # cs) \<or> str_contains n cs)"

text \<open>\<^verbatim>\<open>key in config\<close> for a string key: membership among the keys of a dict, among the
  elements of a list, substring of a string; a number, a bool or None is not iterable.\<close>

fun py_in :: "string \<Rightarrow> json \<Rightarrow> py_error + bool" where
  "py_in k (JObj kvs) = Inr (k \<in> set (map fst kvs))"
| "py_in k (JArr xs) = Inr (JStr k \<in> set xs)"
| "py_in k (JStr s) = Inr (str_contains k s)"
| "py_in k _ = Inl TypeError"

text \<open>\<^verbatim>\<open>config[key] = v\<close> for a string key: a dict keeps the position of a key it has and
  appends a new one; no other JSON value takes a string index.\<close>

fun py_setitem :: "json \<Rightarrow> string \<Rightarrow> json \<Rightarrow> py_error + json" where
  "py_setitem (JObj kvs) k v = Inr (JObj (AList.update k v kvs))"
| "py_setitem _ k v = Inl TypeError"

text \<open>The loop \<^verbatim>\<open>for key in default_config: if key not in config: config[key] = ...\<close>
  of \<^verbatim>\<open>load_config\<close>, over the entries of the defaults that are still to visit.\<close>

fun merge_defaults :: "(string \<times> json) list \<Rightarrow> json \<Rightarrow> py_error + json" where
  "merge_defaults [] cfg = Inr cfg"
| "merge_defaults ((key, dv) # rest) cfg =
     (case py_in key cfg of
        Inl e \<Rightarrow> Inl e
      | Inr True \<Rightarrow> merge_defaults rest cfg
      | Inr False \<Rightarrow>
          (case py_setitem cfg key dv of
             Inl e \<Rightarrow> Inl e
           | Inr cfg' \<Rightarrow> merge_defaults rest cfg'))"

text \<open>
  A file holds text that \<^verbatim>\<open>json.load\<close> either rejects or reads as a value; a file written
  by \<^verbatim>\<open>json.dump\<close> reads back as the value dumped. The file system maps a path to the file
  there, if any. Failures of \<^verbatim>\<open>open\<close> other than a missing file (a directory, missing
  rights) are left to the operating system and are not part of the model.
\<close>

datatype file_text = Malformed | Doc json

type_synonym filesystem = "string \<rightharpoonup> file_text"

text \<open>\<^verbatim>\<open>load_config\<close>, lines 35 to 75: the configuration returned and the file system after
  the call, or the exception raised.\<close>

definition load_config :: "filesystem \<Rightarrow> string \<Rightarrow> py_error + (json \<times> filesystem)" where
  "load_config fs config_file =
     (case fs config_file of
        None \<Rightarrow> Inr (default_config, fs(config_file \<mapsto> Doc default_config))
      | Some Malformed \<Rightarrow> Inl JSONDecodeError
      | Some (Doc cfg) \<Rightarrow>
          (case merge_defaults (items default_config) cfg of
             Inl e \<Rightarrow> Inl e
           | Inr cfg' \<Rightarrow> Inr (cfg', fs)))"

text \<open>\<^verbatim>\<open>__init__\<close>, lines 29 to 33.\<close>

definition init :: "filesystem \<Rightarrow> string \<Rightarrow> py_error + (EmailAlertSystem \<times> filesystem)" where
  "init fs config_file =
     (case load_config fs config_file of
        Inl e \<Rightarrow> Inl e
      | Inr (cfg, fs') \<Rightarrow>
          Inr (\<lparr>config = cfg, alert_history = Map.empty, running = False\<rparr>, fs'))"

section \<open>Metrics and candidate alerts\<close>

text \<open>
  What \<^verbatim>\<open>psutil\<close> answers during one cycle. \<open>getloadavg\<close> is \<open>None\<close> on a platform
  whose psutil has no such function. \<open>disk_usage\<close> answers per mount point with the
  counters, with PermissionError or with another OSError.
\<close>

datatype disk_usage_result =
    PermissionError
  | OtherOSError
  | Usage (total: int) (used: int) (free: int)

record psutil =
  cpu_percent :: real
  getloadavg :: "(real \<times> real \<times> real) option"
  virtual_memory_percent :: real
  virtual_memory_used :: int
  swap_memory_percent :: real
  disk_partitions :: "string list"
  disk_usage :: "string \<Rightarrow> disk_usage_result"
  process_iter :: "(int \<times> string \<times> real) list"

text \<open>The message of an alert is an f-string; it is kept as the name of its template with
  the values that the template interpolates.\<close>

datatype alert_message =
    CpuMsg real
  | LoadMsg real
  | MemoryMsg real int
  | SwapMsg real
  | DiskMsg string real int
  | ProcessMsg string int real

record alert =
  a_type :: string
  a_message :: alert_message
  a_value :: real
  a_threshold :: json
  a_priority :: string

record cpu_data =
  cd_cpu_percent :: real
  cd_load_avg :: real
  cd_alerts :: "alert list"

record memory_data =
  md_memory_percent :: real
  md_swap_percent :: real
  md_alerts :: "alert list"

record disk_data =
  dd_disk_usage :: "(string \<times> real) list"
  dd_alerts :: "alert list"

record process_data =
  pd_top_processes :: "(string \<times> int \<times> real) list"
  pd_alerts :: "alert list"

text \<open>\<^verbatim>\<open>self.config['thresholds'][key]\<close>\<close>

definition threshold :: "json \<Rightarrow> string \<Rightarrow> py_error + json" where
  "threshold cfg key =
     (case subscript cfg ''thresholds'' of Inl e \<Rightarrow> Inl e | Inr t \<Rightarrow> subscript t key)"

text \<open>\<^verbatim>\<open>'high' if v > m else 'medium'\<close>\<close>

definition priority_above :: "real \<Rightarrow> real \<Rightarrow> string" where
  "priority_above m v = (if v > m then ''high'' else ''medium'')"

text \<open>\<^verbatim>\<open>check_cpu_usage\<close>, lines 133 to 157.\<close>

definition check_cpu_usage :: "json \<Rightarrow> psutil \<Rightarrow> py_error + cpu_data" where
  "check_cpu_usage cfg ps =
     (let cpu = cpu_percent ps;
          load_avg = (case getloadavg ps of Some (l1, l5, l15) \<Rightarrow> l1 | None \<Rightarrow> 0)
      in
      case threshold cfg ''cpu_percent'' of
        Inl e \<Rightarrow> Inl e
      | Inr t_cpu \<Rightarrow>
      (case py_gt cpu t_cpu of
        Inl e \<Rightarrow> Inl e
      | Inr cpu_over \<Rightarrow>
      (let alerts1 =
             (if cpu_over
              then [\<lparr>a_type = ''cpu_high'', a_message = CpuMsg cpu, a_value = cpu,
                     a_threshold = t_cpu, a_priority = priority_above 95 cpu\<rparr>]
              else [])
       in
       case threshold cfg ''load_average'' of
         Inl e \<Rightarrow> Inl e
       | Inr t_load \<Rightarrow>
       (case py_gt load_avg t_load of
         Inl e \<Rightarrow> Inl e
       | Inr load_over \<Rightarrow>
           Inr \<lparr>cd_cpu_percent = cpu, cd_load_avg = load_avg,
                cd_alerts = alerts1 @
                  (if load_over
                   then [\<lparr>a_type = ''load_high'', a_message = LoadMsg load_avg,
                          a_value = load_avg, a_threshold = t_load,
                          a_priority = priority_above 8 load_avg\<rparr>]
                   else [])\<rparr>))))"

text \<open>\<^verbatim>\<open>check_memory_usage\<close>, lines 159 to 187.\<close>

definition check_memory_usage :: "json \<Rightarrow> psutil \<Rightarrow> py_error + memory_data" where
  "check_memory_usage cfg ps =
     (let mem = virtual_memory_percent ps; swap = swap_memory_percent ps in
      case threshold cfg ''memory_percent'' of
        Inl e \<Rightarrow> Inl e
      | Inr t_mem \<Rightarrow>
      (case py_gt mem t_mem of
        Inl e \<Rightarrow> Inl e
      | Inr mem_over \<Rightarrow>
          Inr \<lparr>md_memory_percent = mem, md_swap_percent = swap,
               md_alerts =
                 (if mem_over
                  then [\<lparr>a_type = ''memory_high'',
                         a_message = MemoryMsg mem (virtual_memory_used ps div (1024 ^ 3)),
                         a_value = mem, a_threshold = t_mem,
                         a_priority = priority_above 95 mem\<rparr>]
                  else []) @
                 (if swap > 50
                  then [\<lparr>a_type = ''swap_high'', a_message = SwapMsg swap, a_value = swap,
                         a_threshold = JNum 50, a_priority = ''high''\<rparr>]
                  else [])\<rparr>))"

text \<open>
  The loop of \<^verbatim>\<open>check_disk_usage\<close>, lines 194 to 209, over the partitions still to visit,
  with the \<^verbatim>\<open>alerts\<close> list and the \<^verbatim>\<open>disk_info\<close> dict built so far. Only PermissionError
  is caught; the division \<^verbatim>\<open>usage.used / usage.total\<close> raises on a zero total.
\<close>

fun disk_loop ::
  "json \<Rightarrow> (string \<Rightarrow> disk_usage_result) \<Rightarrow> string list \<Rightarrow> alert list \<Rightarrow> (string \<times> real) list
     \<Rightarrow> py_error + disk_data" where
  "disk_loop cfg du [] alerts disk_info = Inr \<lparr>dd_disk_usage = disk_info, dd_alerts = alerts\<rparr>"
| "disk_loop cfg du (mountpoint # rest) alerts disk_info =
     (case du mountpoint of
        PermissionError \<Rightarrow> disk_loop cfg du rest alerts disk_info
      | OtherOSError \<Rightarrow> Inl OSError
      | Usage tot usd fre \<Rightarrow>
          if tot = 0 then Inl ZeroDivisionError
          else
            (let percent_used = (real_of_int usd / real_of_int tot) * 100;
                 disk_info' = AList.update mountpoint percent_used disk_info
             in
             case threshold cfg ''disk_percent'' of
               Inl e \<Rightarrow> Inl e
             | Inr t_disk \<Rightarrow>
             (case py_gt percent_used t_disk of
               Inl e \<Rightarrow> Inl e
             | Inr True \<Rightarrow>
                 disk_loop cfg du rest
                   (alerts @
                      [\<lparr>a_type = ''disk_high'',
                        a_message = DiskMsg mountpoint percent_used (fre div (1024 ^ 3)),
                        a_value = percent_used, a_threshold = t_disk,
                        a_priority = priority_above 95 percent_used\<rparr>])
                   disk_info'
             | Inr False \<Rightarrow> disk_loop cfg du rest alerts disk_info')))"

text \<open>\<^verbatim>\<open>check_disk_usage\<close>, lines 189 to 211.\<close>

definition check_disk_usage :: "json \<Rightarrow> psutil \<Rightarrow> py_error + disk_data" where
  "check_disk_usage cfg ps = disk_loop cfg (disk_usage ps) (disk_partitions ps) [] []"

text \<open>The loop of \<^verbatim>\<open>check_system_processes\<close>, lines 223 to 232, with the two lists built
  so far.\<close>

fun process_loop ::
  "(int \<times> string \<times> real) list \<Rightarrow> alert list \<Rightarrow> (string \<times> int \<times> real) list \<Rightarrow> process_data" where
  "process_loop [] alerts top_processes =
     \<lparr>pd_top_processes = top_processes, pd_alerts = alerts\<rparr>"
| "process_loop ((pid, name, cpu) # rest) alerts top_processes =
     process_loop rest
       (if cpu > 50
        then alerts @
               [\<lparr>a_type = ''process_high_cpu'', a_message = ProcessMsg name pid cpu,
                 a_value = cpu, a_threshold = JNum 50, a_priority = ''medium''\<rparr>]
        else alerts)
       (top_processes @ [(name, pid, cpu)])"

text \<open>\<^verbatim>\<open>processes.sort(key=lambda x: x[2], reverse=True)\<close>: a stable sort by descending
  CPU share, as the stable insertion sort by the negated key is.\<close>

definition sort_by_cpu_desc :: "(int \<times> string \<times> real) list \<Rightarrow> (int \<times> string \<times> real) list" where
  "sort_by_cpu_desc processes = sort_key (\<lambda>p. - snd (snd p)) processes"

text \<open>\<^verbatim>\<open>check_system_processes\<close>, lines 213 to 234.\<close>

definition check_system_processes :: "psutil \<Rightarrow> process_data" where
  "check_system_processes ps =
     process_loop (take 5 (sort_by_cpu_desc (process_iter ps))) [] []"

section \<open>Sending one email\<close>

record report =
  r_alert_message :: alert_message
  r_cpu_percent :: real
  r_load_avg :: real
  r_memory_percent :: real
  r_swap_percent :: real
  r_disk_usage :: "(string \<times> real) list"
  r_top_processes :: "(string \<times> int \<times> real) list"

text \<open>The message handed to the SMTP server: the three headers, whether the two priority
  headers were added, and the report of the body.\<close>

record email =
  e_from :: json
  e_to :: string
  e_subject_prefix :: json
  e_subject :: "string \<times> alert_message"
  e_priority_headers :: bool
  e_body :: report

definition and_then :: "py_error + 'a \<Rightarrow> ('a \<Rightarrow> py_error + 'b) \<Rightarrow> py_error + 'b" where
  "and_then r f = (case r of Inl e \<Rightarrow> Inl e | Inr x \<Rightarrow> f x)"

fun join_with :: "string \<Rightarrow> string list \<Rightarrow> string" where
  "join_with sep [] = []"
| "join_with sep [s] = s"
| "join_with sep (s # t # ss) = s @ sep @ join_with sep (t # ss)"

fun str_of :: "json \<Rightarrow> string option" where
  "str_of (JStr s) = Some s"
| "str_of _ = None"

text \<open>\<^verbatim>\<open>', '.join(v)\<close>: the elements of a list must all be strings, a string is joined
  character by character, a dict by its keys; anything else is not iterable.\<close>

fun py_join :: "json \<Rightarrow> py_error + string" where
  "py_join (JArr xs) =
     (if list_all (\<lambda>x. str_of x \<noteq> None) xs
      then Inr (join_with '', '' (map (\<lambda>x. the (str_of x)) xs))
      else Inl TypeError)"
| "py_join (JStr s) = Inr (join_with '', '' (map (\<lambda>c. [c]) s))"
| "py_join (JObj kvs) = Inr (join_with '', '' (map fst kvs))"
| "py_join _ = Inl TypeError"

text \<open>
  The body of the \<^verbatim>\<open>try\<close> block of \<^verbatim>\<open>send_email\<close>, lines 80 to 127. The configuration is
  read in the order of the source. The SMTP session (connect, starttls, login, sendmail,
  quit) belongs to the mail server: \<open>session_ok\<close> says whether it ran without an
  exception.
\<close>

definition send_email_try ::
  "json \<Rightarrow> bool \<Rightarrow> string \<times> alert_message \<Rightarrow> report \<Rightarrow> string \<Rightarrow> py_error + email" where
  "send_email_try cfg session_ok subject body priority =
     and_then (and_then (subscript cfg ''alerts'') (\<lambda>a. subscript a ''from_email'')) (\<lambda>from_email.
     and_then (and_then (subscript cfg ''alerts'') (\<lambda>a. subscript a ''to_emails'')) (\<lambda>to_emails.
     and_then (py_join to_emails) (\<lambda>to_header.
     and_then (and_then (subscript cfg ''alerts'') (\<lambda>a. subscript a ''subject_prefix'')) (\<lambda>prefix.
     and_then (and_then (subscript cfg ''smtp'') (\<lambda>s. subscript s ''server'')) (\<lambda>server.
     and_then (and_then (subscript cfg ''smtp'') (\<lambda>s. subscript s ''port'')) (\<lambda>port.
     and_then (and_then (subscript cfg ''smtp'') (\<lambda>s. subscript s ''use_tls'')) (\<lambda>use_tls.
     and_then (and_then (subscript cfg ''smtp'') (\<lambda>s. subscript s ''username'')) (\<lambda>username.
     and_then (and_then (subscript cfg ''smtp'') (\<lambda>s. subscript s ''password'')) (\<lambda>password.
       if session_ok
       then Inr \<lparr>e_from = from_email, e_to = to_header, e_subject_prefix = prefix,
                 e_subject = subject, e_priority_headers = (priority = ''high''),
                 e_body = body\<rparr>
       else Inl SMTPException)))))))))"

text \<open>\<^verbatim>\<open>send_email\<close>, lines 77 to 131: \<^verbatim>\<open>except Exception\<close> turns every exception of the
  block into the result False.\<close>

definition send_email ::
  "json \<Rightarrow> bool \<Rightarrow> string \<times> alert_message \<Rightarrow> report \<Rightarrow> string \<Rightarrow> bool" where
  "send_email cfg session_ok subject body priority =
     (case send_email_try cfg session_ok subject body priority of
        Inl e \<Rightarrow> False
      | Inr m \<Rightarrow> True)"

section \<open>One system check\<close>

text \<open>
  The surroundings of one call of \<^verbatim>\<open>run_system_check\<close>: the answers of psutil, the value
  that \<^verbatim>\<open>time.time()\<close> returns in the gate call for the k-th candidate of the cycle, and
  whether the SMTP session opened for the k-th candidate runs without an exception.
\<close>

record cycle_env =
  metrics :: psutil
  time_time :: "nat \<Rightarrow> real"
  smtp_ok :: "nat \<Rightarrow> bool"

record check_data =
  cpu_d :: cpu_data
  memory_d :: memory_data
  disk_d :: disk_data
  process_d :: process_data

text \<open>Lines 252 to 255: the four checks in order; the first exception ends the call.\<close>

definition run_checks :: "json \<Rightarrow> psutil \<Rightarrow> py_error + check_data" where
  "run_checks cfg ps =
     and_then (check_cpu_usage cfg ps) (\<lambda>c.
     and_then (check_memory_usage cfg ps) (\<lambda>m.
     and_then (check_disk_usage cfg ps) (\<lambda>d.
       Inr \<lparr>cpu_d = c, memory_d = m, disk_d = d, process_d = check_system_processes ps\<rparr>)))"

text \<open>Lines 258 to 262.\<close>

definition all_alerts :: "check_data \<Rightarrow> alert list" where
  "all_alerts d =
     cd_alerts (cpu_d d) @ md_alerts (memory_d d) @ dd_alerts (disk_d d) @ pd_alerts (process_d d)"

text \<open>Lines 269 to 288: the report of one alert.\<close>

definition make_report :: "check_data \<Rightarrow> alert \<Rightarrow> report" where
  "make_report d a =
     \<lparr>r_alert_message = a_message a,
      r_cpu_percent = cd_cpu_percent (cpu_d d),
      r_load_avg = cd_load_avg (cpu_d d),
      r_memory_percent = md_memory_percent (memory_d d),
      r_swap_percent = md_swap_percent (memory_d d),
      r_disk_usage = dd_disk_usage (disk_d d),
      r_top_processes = pd_top_processes (process_d d)\<rparr>"

text \<open>One call of \<^verbatim>\<open>send_email\<close> made by the loop: the position of the candidate in the
  cycle, the candidate, the report, and what \<^verbatim>\<open>send_email\<close> returned.\<close>

record attempt =
  at_index :: nat
  at_alert :: alert
  at_report :: report
  at_delivered :: bool

text \<open>
  The loop of lines 266 to 292 over the candidates still to process, \<open>k\<close> being the
  position of the next one. The result is the exception that ended the loop, if any, the
  object as the loop left it, and the calls of \<^verbatim>\<open>send_email\<close> made.
\<close>

fun alert_loop ::
  "cycle_env \<Rightarrow> check_data \<Rightarrow> nat \<Rightarrow> alert list \<Rightarrow> EmailAlertSystem \<Rightarrow> attempt list
     \<Rightarrow> py_error option \<times> EmailAlertSystem \<times> attempt list" where
  "alert_loop env d k [] self attempts = (None, self, attempts)"
| "alert_loop env d k (a # rest) self attempts =
     (case should_send_alert (time_time env k) (a_type a) self of
        Inl e \<Rightarrow> (Some e, self, attempts)
      | Inr (True, self') \<Rightarrow>
          (let rep = make_report d a;
               sent = send_email (config self') (smtp_ok env k) (a_type a, a_message a) rep
                        (a_priority a)
           in alert_loop env d (Suc k) rest self'
                (attempts @ [\<lparr>at_index = k, at_alert = a, at_report = rep, at_delivered = sent\<rparr>]))
      | Inr (False, self') \<Rightarrow> alert_loop env d (Suc k) rest self' attempts)"

text \<open>\<^verbatim>\<open>run_system_check\<close>, lines 247 to 294.\<close>

definition run_system_check ::
  "cycle_env \<Rightarrow> EmailAlertSystem \<Rightarrow> py_error option \<times> EmailAlertSystem \<times> attempt list" where
  "run_system_check env self =
     (case run_checks (config self) (metrics env) of
        Inl e \<Rightarrow> (Some e, self, [])
      | Inr d \<Rightarrow>
          (if all_alerts d \<noteq> [] then alert_loop env d 0 (all_alerts d) self []
           else (None, self, [])))"

section \<open>The command line\<close>

text \<open>
  The branch \<^verbatim>\<open>elif args.check\<close> of \<^verbatim>\<open>main\<close>, lines 345 and 354 to 357: a new object is
  built from the configuration file, one check runs, and the process ends. What outlives
  the process is the file system; the result also shows the exception that ended the
  process, if any, and the calls of \<^verbatim>\<open>send_email\<close> made.
\<close>

definition main_check ::
  "filesystem \<Rightarrow> string \<Rightarrow> cycle_env \<Rightarrow> py_error option \<times> filesystem \<times> attempt list" where
  "main_check fs config_file env =
     (case init fs config_file of
        Inl e \<Rightarrow> (Some e, fs, [])
      | Inr (alert_system, fs') \<Rightarrow>
          (case run_system_check env alert_system of
             (r, alert_system', attempts) \<Rightarrow> (r, fs', attempts)))"

section \<open>Concrete inputs\<close>

text \<open>An object running on the default configuration that sent a CPU alert at time 1000
  and a disk alert at time 900.\<close>

definition example_system :: EmailAlertSystem where
  "example_system =
     \<lparr>config = default_config,
      alert_history = [''cpu_high'' \<mapsto> 1000, ''disk_high'' \<mapsto> 900],
      running = False\<rparr>"

text \<open>A configuration file that holds the thresholds section with one of its four
  keys, and no other section.\<close>

definition partial_config :: json where
  "partial_config = JObj [(''thresholds'', JObj [(''cpu_percent'', JNum 50)])]"

definition partial_fs :: filesystem where
  "partial_fs = [''alert_config.json'' \<mapsto> Doc partial_config]"

text \<open>The object that \<^verbatim>\<open>__init__\<close> builds when no configuration file exists.\<close>

definition fresh_system :: EmailAlertSystem where
  "fresh_system = \<lparr>config = default_config, alert_history = Map.empty, running = False\<rparr>"

section \<open>Reading the checks\<close>

text \<open>The number that a JSON value counts as in a comparison with a float, if any.\<close>

fun num_of :: "json \<Rightarrow> real option" where
  "num_of (JNum y) = Some y"
| "num_of (JBool b) = Some (if b then 1 else 0)"
| "num_of _ = None"

text \<open>A threshold key is configured as \<open>j\<close>, a value that counts as the number \<open>T\<close>.\<close>

definition threshold_is :: "json \<Rightarrow> string \<Rightarrow> json \<Rightarrow> real \<Rightarrow> bool" where
  "threshold_is cfg key j T = (threshold cfg key = Inr j \<and> num_of j = Some T)"

text \<open>The percentage that the disk check computes from an answer of \<open>disk_usage\<close>, and
  the free space in whole GiB that its message shows.\<close>

fun percent_used :: "disk_usage_result \<Rightarrow> real" where
  "percent_used (Usage tot usd fre) = (real_of_int usd / real_of_int tot) * 100"
| "percent_used _ = 0"

fun free_gb :: "disk_usage_result \<Rightarrow> int" where
  "free_gb (Usage tot usd fre) = fre div (1024 ^ 3)"
| "free_gb _ = 0"

text \<open>A mount whose usage query does not raise PermissionError.\<close>

definition readable :: "(string \<Rightarrow> disk_usage_result) \<Rightarrow> string \<Rightarrow> bool" where
  "readable du mp = (du mp \<noteq> PermissionError)"

text \<open>A mount whose usage query raises PermissionError or answers with a total that is
  not zero.\<close>

definition usable :: "(string \<Rightarrow> disk_usage_result) \<Rightarrow> string \<Rightarrow> bool" where
  "usable du mp =
     (case du mp of PermissionError \<Rightarrow> True | OtherOSError \<Rightarrow> False | Usage tot usd fre \<Rightarrow> tot \<noteq> 0)"

text \<open>The dicts that the checks append to their \<^verbatim>\<open>alerts\<close> lists.\<close>

definition load_avg_of :: "psutil \<Rightarrow> real" where
  "load_avg_of ps = (case getloadavg ps of Some (l1, l5, l15) \<Rightarrow> l1 | None \<Rightarrow> 0)"

definition cpu_alert :: "json \<Rightarrow> real \<Rightarrow> alert" where
  "cpu_alert j v =
     \<lparr>a_type = ''cpu_high'', a_message = CpuMsg v, a_value = v, a_threshold = j,
      a_priority = (if v > 95 then ''high'' else ''medium'')\<rparr>"

definition load_alert :: "json \<Rightarrow> real \<Rightarrow> alert" where
  "load_alert j v =
     \<lparr>a_type = ''load_high'', a_message = LoadMsg v, a_value = v, a_threshold = j,
      a_priority = (if v > 8 then ''high'' else ''medium'')\<rparr>"

definition memory_alert :: "json \<Rightarrow> real \<Rightarrow> int \<Rightarrow> alert" where
  "memory_alert j v usd =
     \<lparr>a_type = ''memory_high'', a_message = MemoryMsg v (usd div (1024 ^ 3)), a_value = v,
      a_threshold = j, a_priority = (if v > 95 then ''high'' else ''medium'')\<rparr>"

definition swap_alert :: "real \<Rightarrow> alert" where
  "swap_alert v =
     \<lparr>a_type = ''swap_high'', a_message = SwapMsg v, a_value = v, a_threshold = JNum 50,
      a_priority = ''high''\<rparr>"

definition disk_alert :: "json \<Rightarrow> (string \<Rightarrow> disk_usage_result) \<Rightarrow> string \<Rightarrow> alert" where
  "disk_alert j du mp =
     \<lparr>a_type = ''disk_high'',
      a_message = DiskMsg mp (percent_used (du mp)) (free_gb (du mp)),
      a_value = percent_used (du mp), a_threshold = j,
      a_priority = (if percent_used (du mp) > 95 then ''high'' else ''medium'')\<rparr>"

definition process_alert :: "int \<times> string \<times> real \<Rightarrow> alert" where
  "process_alert p =
     \<lparr>a_type = ''process_high_cpu'',
      a_message = ProcessMsg (fst (snd p)) (fst p) (snd (snd p)),
      a_value = snd (snd p), a_threshold = JNum 50, a_priority = ''medium''\<rparr>"

text \<open>A host with three mounts, the second of which may not be queried, and seven
  processes, six of them above 50 percent.\<close>

definition example_disk_usage :: "string \<Rightarrow> disk_usage_result" where
  "example_disk_usage mp =
     (if mp = ''/'' then Usage 100 96 4
      else if mp = ''/root'' then PermissionError
      else Usage 200 100 100)"

definition example_metrics :: psutil where
  "example_metrics =
     \<lparr>cpu_percent = 97, getloadavg = Some (5, 2, 1), virtual_memory_percent = 50,
      virtual_memory_used = 2 ^ 31, swap_memory_percent = 60,
      disk_partitions = [''/'', ''/root'', ''/data''],
      disk_usage = example_disk_usage,
      process_iter =
        [(11, ''a'', 60), (12, ''b'', 10), (13, ''c'', 70), (14, ''d'', 55),
         (15, ''e'', 80), (16, ''f'', 90), (17, ''g'', 65)]\<rparr>"

text \<open>The candidate at position \<open>i\<close> of the cycle was admitted by the gate: the loop called
  \<^verbatim>\<open>send_email\<close> for it.\<close>

definition admitted :: "attempt list \<Rightarrow> nat \<Rightarrow> bool" where
  "admitted attempts i = (i \<in> set (map at_index attempts))"

text \<open>The call of \<^verbatim>\<open>send_email\<close> that the loop makes for the candidate \<open>a\<close> at position \<open>k\<close>.\<close>

definition attempt_for :: "cycle_env \<Rightarrow> check_data \<Rightarrow> json \<Rightarrow> nat \<Rightarrow> alert \<Rightarrow> attempt" where
  "attempt_for env d cfg k a =
     \<lparr>at_index = k, at_alert = a, at_report = make_report d a,
      at_delivered = send_email cfg (smtp_ok env k) (a_type a, a_message a) (make_report d a)
                       (a_priority a)\<rparr>"

text \<open>A cycle on the example host in which the gate calls are one second apart, starting
  at time 1000, and every SMTP session succeeds.\<close>

definition example_env :: cycle_env where
  "example_env =
     \<lparr>metrics = example_metrics, time_time = (\<lambda>k. 1000 + real k), smtp_ok = (\<lambda>k. True)\<rparr>"


text \<open>The file system that a first run without a configuration file leaves, and a second
  cycle on the same host ten seconds after the first.\<close>

definition default_config_fs :: filesystem where
  "default_config_fs = [''alert_config.json'' \<mapsto> Doc default_config]"

definition later_env :: cycle_env where
  "later_env = example_env\<lparr>time_time := (\<lambda>k. 1010 + real k)\<rparr>"

text \<open>The alert types of the emails attempted, in order.\<close>

definition attempted_types :: "attempt list \<Rightarrow> string list" where
  "attempted_types attempts = map (\<lambda>x. a_type (at_alert x)) attempts"

section \<open>The cooldown gate\<close>

lemma should_send_alert_eq:
  assumes "cooldown_period (config self) = Some c"
  shows "should_send_alert now a self =
           (if now - history_get (alert_history self) a > c
            then Inr (True, self\<lparr>alert_history := (alert_history self)(a \<mapsto> now)\<rparr>)
            else Inr (False, self))"
  using assms
  by (auto simp: should_send_alert_def cooldown_period_def Let_def
           split: sum.splits json.splits bool.splits)

lemma cooldown_default: "cooldown_period default_config = Some 300"
  by (simp add: cooldown_period_def default_config_def)

lemma cooldown_example_system: "cooldown_period (config example_system) = Some 300"
  by (simp add: example_system_def cooldown_default)

text \<open>
  Claim C1. With a numeric cooldown period \<open>c\<close> configured, \<^verbatim>\<open>should_send_alert\<close> returns
  a bool for every alert type and every reading of the clock. It returns True exactly
  when \<open>now - last_sent > c\<close>, where \<open>last_sent\<close> is the stored timestamp of the type and
  0 for a type without one. When it returns True the object differs from the one before
  the call only in that the timestamp of the type is \<open>now\<close>; when it returns False (at
  \<open>now - last_sent = c\<close> and below) the object is the one before the call. Timestamps
  are reals here, Python's floats in the program.
\<close>

theorem should_send_alert_admits_iff:
  assumes "cooldown_period (config self) = Some c"
  shows "\<exists>b self'. should_send_alert now a self = Inr (b, self') \<and>
           (b \<longleftrightarrow> now - history_get (alert_history self) a > c) \<and>
           (alert_history self a = None \<longrightarrow> history_get (alert_history self) a = 0) \<and>
           (b \<longrightarrow> self' = self\<lparr>alert_history := (alert_history self)(a \<mapsto> now)\<rparr>) \<and>
           (\<not> b \<longrightarrow> self' = self)"
  using should_send_alert_eq [OF assms, of now a]
  by (simp add: history_get_def)

theorem should_send_alert_admits_iff_witness:
  "cooldown_period (config example_system) = Some 300 \<and>
   should_send_alert 1300 ''cpu_high'' example_system = Inr (False, example_system) \<and>
   should_send_alert 1300.5 ''cpu_high'' example_system =
     Inr (True, example_system\<lparr>alert_history :=
                  [''cpu_high'' \<mapsto> 1300.5, ''disk_high'' \<mapsto> 900]\<rparr>) \<and>
   should_send_alert 301 ''swap_high'' example_system =
     Inr (True, example_system\<lparr>alert_history :=
                  [''cpu_high'' \<mapsto> 1000, ''disk_high'' \<mapsto> 900, ''swap_high'' \<mapsto> 301]\<rparr>)"
proof -
  note c = cooldown_example_system
  have "should_send_alert 1300 ''cpu_high'' example_system = Inr (False, example_system)"
    using should_send_alert_admits_iff [OF c, of 1300 "''cpu_high''"]
    by (auto simp: example_system_def history_get_def)
  moreover have "should_send_alert 1300.5 ''cpu_high'' example_system =
     Inr (True, example_system\<lparr>alert_history :=
                  [''cpu_high'' \<mapsto> 1300.5, ''disk_high'' \<mapsto> 900]\<rparr>)"
    using should_send_alert_admits_iff [OF c, of "1300.5" "''cpu_high''"]
    by (auto simp: example_system_def history_get_def fun_upd_twist)
  moreover have "should_send_alert 301 ''swap_high'' example_system =
     Inr (True, example_system\<lparr>alert_history :=
                  [''cpu_high'' \<mapsto> 1000, ''disk_high'' \<mapsto> 900, ''swap_high'' \<mapsto> 301]\<rparr>)"
    using should_send_alert_admits_iff [OF c, of 301 "''swap_high''"]
    by (auto simp: example_system_def history_get_def)
  ultimately show ?thesis using c by simp
qed

text \<open>
  Claim C9. A call of \<^verbatim>\<open>should_send_alert\<close> for one alert type that returns, admitting or
  rejecting, leaves the entry of every other alert type in \<^verbatim>\<open>alert_history\<close> as it was,
  present or absent, and leaves the configuration and the running flag as they were.
\<close>

theorem should_send_alert_frame:
  assumes "should_send_alert now a self = Inr (b, self')" and "a' \<noteq> a"
  shows "alert_history self' a' = alert_history self a' \<and>
         config self' = config self \<and> running self' = running self"
  using assms
  by (auto simp: should_send_alert_def Let_def split: sum.splits bool.splits)

theorem should_send_alert_frame_witness:
  "should_send_alert 1301 ''cpu_high'' example_system =
     Inr (True, example_system\<lparr>alert_history :=
                  (alert_history example_system)(''cpu_high'' \<mapsto> 1301)\<rparr>) \<and>
   ''disk_high'' \<noteq> ''cpu_high'' \<and> ''swap_high'' \<noteq> ''cpu_high'' \<and>
   alert_history (example_system\<lparr>alert_history :=
       (alert_history example_system)(''cpu_high'' \<mapsto> 1301)\<rparr>) ''disk_high'' = Some 900 \<and>
   alert_history (example_system\<lparr>alert_history :=
       (alert_history example_system)(''cpu_high'' \<mapsto> 1301)\<rparr>) ''swap_high'' = None"
proof -
  have r: "should_send_alert 1301 ''cpu_high'' example_system =
     Inr (True, example_system\<lparr>alert_history :=
                  (alert_history example_system)(''cpu_high'' \<mapsto> 1301)\<rparr>)"
    using should_send_alert_eq [OF cooldown_example_system, of 1301 "''cpu_high''"]
    by (simp add: example_system_def history_get_def)
  have d: "''disk_high'' \<noteq> ''cpu_high''" and s: "''swap_high'' \<noteq> ''cpu_high''"
    by simp_all
  show ?thesis
    using r d s should_send_alert_frame [OF r d] should_send_alert_frame [OF r s]
    by (simp add: example_system_def)
qed

text \<open>
  Claim C10. An object as \<^verbatim>\<open>__init__\<close> builds it has an empty \<^verbatim>\<open>alert_history\<close>, and
  its first gate call, for any alert type, at a time \<open>now\<close> that is at most the cooldown
  period returns False and leaves the object as it is: the absent entry counts as the
  timestamp 0.
\<close>

theorem init_first_admit_rejected:
  assumes "init fs config_file = Inr (self, fs')"
    and "cooldown_period (config self) = Some c"
    and "now \<le> c"
  shows "alert_history self = Map.empty \<and> should_send_alert now a self = Inr (False, self)"
proof -
  have "alert_history self = Map.empty"
    using assms(1) by (auto simp: init_def split: sum.splits)
  then show ?thesis
    using should_send_alert_eq [OF assms(2), of now a] assms(3)
    by (simp add: history_get_def)
qed

lemma init_no_file:
  "init Map.empty ''alert_config.json'' =
     Inr (fresh_system, [''alert_config.json'' \<mapsto> Doc default_config])"
  by (simp add: init_def load_config_def fresh_system_def)

theorem init_first_admit_rejected_witness:
  "init Map.empty ''alert_config.json'' =
     Inr (fresh_system, [''alert_config.json'' \<mapsto> Doc default_config]) \<and>
   cooldown_period (config fresh_system) = Some 300 \<and> (300::real) \<le> 300 \<and>
   alert_history fresh_system = Map.empty \<and>
   should_send_alert 300 ''cpu_high'' fresh_system = Inr (False, fresh_system)"
proof -
  have c: "cooldown_period (config fresh_system) = Some 300"
    by (simp add: fresh_system_def cooldown_default)
  have le: "(300::real) \<le> 300" by simp
  show ?thesis
    using init_no_file c le init_first_admit_rejected [OF init_no_file c le, of "''cpu_high''"]
    by simp
qed

section \<open>Loading and merging the configuration\<close>

lemma update_fresh: "k \<notin> fst ` set kvs \<Longrightarrow> AList.update k v kvs = kvs @ [(k, v)]"
  by (induction kvs) auto

lemma merge_defaults_obj:
  "distinct (map fst ds) \<Longrightarrow>
   merge_defaults ds (JObj kvs) =
     Inr (JObj (kvs @ filter (\<lambda>p. fst p \<notin> fst ` set kvs) ds))"
proof (induction ds arbitrary: kvs)
  case Nil
  then show ?case by simp
next
  case (Cons d ds)
  obtain k v where d: "d = (k, v)" by (cases d)
  from Cons.prems d have fresh: "k \<notin> fst ` set ds" and dist: "distinct (map fst ds)"
    by auto
  show ?case
  proof (cases "k \<in> fst ` set kvs")
    case True
    then show ?thesis using Cons.IH [OF dist, of kvs] d by simp
  next
    case False
    have same: "filter (\<lambda>p. fst p \<notin> fst ` set (kvs @ [(k, v)])) ds =
                filter (\<lambda>p. fst p \<notin> fst ` set kvs) ds"
      using fresh by (intro filter_cong) auto
    show ?thesis
      using False Cons.IH [OF dist, of "kvs @ [(k, v)]"] d same
      by (simp add: update_fresh)
  qed
qed

lemma distinct_default_keys: "distinct (map fst (items default_config))"
  by (simp add: default_config_def)

lemma map_of_append_filter:
  "map_of (kvs @ filter (\<lambda>p. fst p \<notin> fst ` set kvs) ds) k =
     (if k \<in> fst ` set kvs then map_of kvs k else map_of ds k)"
proof (cases "k \<in> fst ` set kvs")
  case True
  then have "map_of kvs k \<noteq> None" by (simp add: map_of_eq_None_iff)
  then show ?thesis using True by (auto simp: map_add_def split: option.splits)
next
  case False
  then have n: "map_of kvs k = None" by (simp add: map_of_eq_None_iff)
  have "map_of (filter (\<lambda>p. fst p \<notin> fst ` set kvs) ds) k = map_of ds k"
    using False by (induction ds) auto
  then show ?thesis using False n by (simp add: map_add_def)
qed

text \<open>
  Claim C8. When no file is at the path, \<^verbatim>\<open>load_config\<close> returns the default
  configuration and leaves a file holding it at the path. When the file holds a JSON
  object, the call returns the entries of the file as they are, in their order, followed
  by the default sections whose key the file lacks, and the file system is as before: a
  top-level key of the file keeps the value of the file, whatever nested keys that value
  holds or lacks, and every other top-level key reads as in the defaults.
\<close>

theorem load_config_top_level_merge:
  "(fs config_file = None \<longrightarrow>
      load_config fs config_file =
        Inr (default_config, fs(config_file \<mapsto> Doc default_config))) \<and>
   (fs config_file = Some (Doc (JObj kvs)) \<longrightarrow>
      (\<exists>kvs'. load_config fs config_file = Inr (JObj kvs', fs) \<and>
         kvs' = kvs @ filter (\<lambda>p. fst p \<notin> fst ` set kvs) (items default_config) \<and>
         (\<forall>k. subscript (JObj kvs') k =
                (if k \<in> fst ` set kvs then subscript (JObj kvs) k
                 else subscript default_config k))))"
proof (intro conjI impI)
  assume "fs config_file = None"
  then show "load_config fs config_file =
        Inr (default_config, fs(config_file \<mapsto> Doc default_config))"
    by (simp add: load_config_def)
next
  assume f: "fs config_file = Some (Doc (JObj kvs))"
  let ?kvs' = "kvs @ filter (\<lambda>p. fst p \<notin> fst ` set kvs) (items default_config)"
  have l: "load_config fs config_file = Inr (JObj ?kvs', fs)"
    using f merge_defaults_obj [OF distinct_default_keys, of kvs]
    by (simp add: load_config_def)
  have d: "default_config = JObj (items default_config)"
    by (simp add: default_config_def)
  have "\<forall>k. subscript (JObj ?kvs') k =
                (if k \<in> fst ` set kvs then subscript (JObj kvs) k
                 else subscript default_config k)"
  proof
    fix k
    have "subscript default_config k = subscript (JObj (items default_config)) k"
      using d by simp
    then show "subscript (JObj ?kvs') k =
                (if k \<in> fst ` set kvs then subscript (JObj kvs) k
                 else subscript default_config k)"
      by (simp only: subscript.simps map_of_append_filter split: if_splits) simp
  qed
  with l show "\<exists>kvs'. load_config fs config_file = Inr (JObj kvs', fs) \<and>
         kvs' = ?kvs' \<and>
         (\<forall>k. subscript (JObj kvs') k =
                (if k \<in> fst ` set kvs then subscript (JObj kvs) k
                 else subscript default_config k))"
    by blast
qed

theorem load_config_top_level_merge_witness:
  "Map.empty ''alert_config.json'' = (None :: file_text option) \<and>
   load_config Map.empty ''alert_config.json'' =
     Inr (default_config, [''alert_config.json'' \<mapsto> Doc default_config]) \<and>
   partial_fs ''alert_config.json'' =
     Some (Doc (JObj [(''thresholds'', JObj [(''cpu_percent'', JNum 50)])])) \<and>
   (\<exists>cfg. load_config partial_fs ''alert_config.json'' = Inr (cfg, partial_fs) \<and>
      subscript cfg ''thresholds'' = Inr (JObj [(''cpu_percent'', JNum 50)]) \<and>
      threshold cfg ''disk_percent'' = Inl KeyError \<and>
      subscript cfg ''monitoring'' = subscript default_config ''monitoring'')"
proof -
  have a: "Map.empty ''alert_config.json'' = (None :: file_text option)" by simp
  have b: "partial_fs ''alert_config.json'' =
     Some (Doc (JObj [(''thresholds'', JObj [(''cpu_percent'', JNum 50)])]))"
    by (simp add: partial_fs_def partial_config_def)
  from load_config_top_level_merge [of Map.empty "''alert_config.json''"] a
  have 1: "load_config Map.empty ''alert_config.json'' =
     Inr (default_config, [''alert_config.json'' \<mapsto> Doc default_config])"
    by simp
  from load_config_top_level_merge [of partial_fs "''alert_config.json''"
      "[(''thresholds'', JObj [(''cpu_percent'', JNum 50)])]"] b
  obtain kvs' where l: "load_config partial_fs ''alert_config.json'' = Inr (JObj kvs', partial_fs)"
    and s: "\<forall>k. subscript (JObj kvs') k =
                (if k \<in> fst ` set [(''thresholds'', JObj [(''cpu_percent'', JNum 50)])]
                 then subscript (JObj [(''thresholds'', JObj [(''cpu_percent'', JNum 50)])]) k
                 else subscript default_config k)"
    by blast
  have t: "subscript (JObj kvs') ''thresholds'' = Inr (JObj [(''cpu_percent'', JNum 50)])"
    using s [rule_format, of "''thresholds''"] by simp
  have m: "subscript (JObj kvs') ''monitoring'' = subscript default_config ''monitoring''"
    using s [rule_format, of "''monitoring''"] by simp
  have "threshold (JObj kvs') ''disk_percent'' = Inl KeyError"
    unfolding threshold_def t by simp
  with a b 1 l t m show ?thesis by blast
qed

section \<open>The checks in closed form\<close>

lemma py_gt_num: "num_of j = Some y \<Longrightarrow> py_gt x j = Inr (x > y)"
  by (cases j) auto

lemma check_cpu_usage_eq:
  assumes "threshold_is cfg ''cpu_percent'' jc Tc" and "threshold_is cfg ''load_average'' jl Tl"
  shows "check_cpu_usage cfg ps =
     Inr \<lparr>cd_cpu_percent = cpu_percent ps, cd_load_avg = load_avg_of ps,
          cd_alerts =
            (if cpu_percent ps > Tc then [cpu_alert jc (cpu_percent ps)] else []) @
            (if load_avg_of ps > Tl then [load_alert jl (load_avg_of ps)] else [])\<rparr>"
  using assms
  by (simp add: check_cpu_usage_def threshold_is_def py_gt_num priority_above_def Let_def
        load_avg_of_def cpu_alert_def load_alert_def)

lemma check_memory_usage_eq:
  assumes "threshold_is cfg ''memory_percent'' jm Tm"
  shows "check_memory_usage cfg ps =
     Inr \<lparr>md_memory_percent = virtual_memory_percent ps,
          md_swap_percent = swap_memory_percent ps,
          md_alerts =
            (if virtual_memory_percent ps > Tm
             then [memory_alert jm (virtual_memory_percent ps) (virtual_memory_used ps)]
             else []) @
            (if swap_memory_percent ps > 50 then [swap_alert (swap_memory_percent ps)] else [])\<rparr>"
  using assms
  by (simp add: check_memory_usage_def threshold_is_def py_gt_num priority_above_def Let_def
        memory_alert_def swap_alert_def)

lemma disk_loop_skip_denied:
  "disk_loop cfg du (filter (readable du) mps) alerts info = disk_loop cfg du mps alerts info"
proof (induction mps arbitrary: alerts info)
  case Nil
  then show ?case by simp
next
  case (Cons mp mps)
  show ?case
  proof (cases "du mp")
    case PermissionError
    then show ?thesis using Cons.IH by (simp add: readable_def)
  next
    case OtherOSError
    then show ?thesis by (simp add: readable_def)
  next
    case (Usage tot usd fre)
    then show ?thesis using Cons.IH
      by (simp add: readable_def Let_def split: sum.splits bool.splits)
  qed
qed

lemma disk_loop_eq:
  assumes "threshold_is cfg ''disk_percent'' jd Td" and "\<forall>mp \<in> set mps. usable du mp"
  shows "disk_loop cfg du mps alerts info =
     Inr \<lparr>dd_disk_usage =
            fold (\<lambda>mp. AList.update mp (percent_used (du mp))) (filter (readable du) mps) info,
          dd_alerts = alerts @
            map (disk_alert jd du)
              (filter (\<lambda>mp. readable du mp \<and> percent_used (du mp) > Td) mps)\<rparr>"
  using assms(2)
proof (induction mps arbitrary: alerts info)
  case Nil
  then show ?case by simp
next
  case (Cons mp mps)
  then have rest: "\<forall>m \<in> set mps. usable du m" and here: "usable du mp" by auto
  note t = assms(1) [unfolded threshold_is_def]
  show ?case
  proof (cases "du mp")
    case PermissionError
    then show ?thesis using Cons.IH [OF rest] by (simp add: readable_def)
  next
    case OtherOSError
    then show ?thesis using here by (simp add: usable_def)
  next
    case (Usage tot usd fre)
    then have nz: "tot \<noteq> 0" using here by (simp add: usable_def)
    show ?thesis
      using Usage nz t Cons.IH [OF rest]
      by (simp add: readable_def Let_def py_gt_num disk_alert_def priority_above_def)
  qed
qed

lemma process_loop_eq:
  "process_loop ps alerts tops =
     \<lparr>pd_top_processes = tops @ map (\<lambda>p. (fst (snd p), fst p, snd (snd p))) ps,
      pd_alerts = alerts @ map process_alert (filter (\<lambda>p. snd (snd p) > 50) ps)\<rparr>"
  by (induction ps alerts tops rule: process_loop.induct) (auto simp: process_alert_def)

lemma check_disk_usage_eq:
  assumes "threshold_is cfg ''disk_percent'' jd Td"
    and "\<forall>mp \<in> set (disk_partitions ps). usable (disk_usage ps) mp"
  shows "check_disk_usage cfg ps =
     Inr \<lparr>dd_disk_usage =
            fold (\<lambda>mp. AList.update mp (percent_used (disk_usage ps mp)))
              (filter (readable (disk_usage ps)) (disk_partitions ps)) [],
          dd_alerts =
            map (disk_alert jd (disk_usage ps))
              (filter (\<lambda>mp. readable (disk_usage ps) mp \<and> percent_used (disk_usage ps mp) > Td)
                 (disk_partitions ps))\<rparr>"
  unfolding check_disk_usage_def using disk_loop_eq [OF assms, of "[]" "[]"] by simp

lemma check_system_processes_eq:
  "check_system_processes ps =
     \<lparr>pd_top_processes =
        map (\<lambda>p. (fst (snd p), fst p, snd (snd p))) (take 5 (sort_by_cpu_desc (process_iter ps))),
      pd_alerts =
        map process_alert
          (filter (\<lambda>p. snd (snd p) > 50) (take 5 (sort_by_cpu_desc (process_iter ps))))\<rparr>"
  by (simp add: check_system_processes_def process_loop_eq)

text \<open>The candidates of one cycle when the four thresholds are numbers and no usage query
  fails other than by PermissionError.\<close>

lemma run_checks_eq:
  assumes "threshold_is cfg ''cpu_percent'' jc Tc" and "threshold_is cfg ''load_average'' jl Tl"
    and "threshold_is cfg ''memory_percent'' jm Tm" and "threshold_is cfg ''disk_percent'' jd Td"
    and "\<forall>mp \<in> set (disk_partitions ps). usable (disk_usage ps) mp"
  shows "\<exists>d. run_checks cfg ps = Inr d \<and>
     check_cpu_usage cfg ps = Inr (cpu_d d) \<and>
     check_memory_usage cfg ps = Inr (memory_d d) \<and>
     check_disk_usage cfg ps = Inr (disk_d d) \<and>
     all_alerts d =
       (if cpu_percent ps > Tc then [cpu_alert jc (cpu_percent ps)] else []) @
       (if load_avg_of ps > Tl then [load_alert jl (load_avg_of ps)] else []) @
       (if virtual_memory_percent ps > Tm
        then [memory_alert jm (virtual_memory_percent ps) (virtual_memory_used ps)] else []) @
       (if swap_memory_percent ps > 50 then [swap_alert (swap_memory_percent ps)] else []) @
       map (disk_alert jd (disk_usage ps))
         (filter (\<lambda>mp. readable (disk_usage ps) mp \<and> percent_used (disk_usage ps mp) > Td)
            (disk_partitions ps)) @
       map process_alert
         (filter (\<lambda>p. snd (snd p) > 50) (take 5 (sort_by_cpu_desc (process_iter ps))))"
  by (simp add: run_checks_def and_then_def all_alerts_def
        check_cpu_usage_eq [OF assms(1,2)] check_memory_usage_eq [OF assms(3)]
        check_disk_usage_eq [OF assms(4,5)] check_system_processes_eq)

section \<open>Mounts that may not be queried\<close>

lemma map_of_fold_update:
  "map_of (fold (\<lambda>k. AList.update k (f k)) ks info) k =
     (if k \<in> set ks then Some (f k) else map_of info k)"
  by (induction ks arbitrary: info) (auto simp: update_conv')

lemma threshold_default_disk: "threshold_is default_config ''disk_percent'' (JNum 90) 90"
  by (simp add: threshold_is_def threshold_def default_config_def)

text \<open>
  Claim C6. The result of \<^verbatim>\<open>check_disk_usage\<close>, an exception included, is the one it
  has when the mounts whose usage query raises PermissionError are not enumerated at
  all. When the disk threshold is a number and every other mount answers with a total
  that is not zero, the check returns: the table \<^verbatim>\<open>disk_usage\<close> that the report prints
  holds exactly the mounts that could be queried, each with its percentage, and the
  alerts are those of the queried mounts above the threshold, in enumeration order; a
  mount that could not be queried is in neither.
\<close>

theorem check_disk_usage_skips_denied_mounts:
  "check_disk_usage cfg
     (ps\<lparr>disk_partitions := filter (readable (disk_usage ps)) (disk_partitions ps)\<rparr>) =
     check_disk_usage cfg ps \<and>
   (threshold_is cfg ''disk_percent'' jd Td \<and>
    (\<forall>mp \<in> set (disk_partitions ps). usable (disk_usage ps) mp) \<longrightarrow>
      (\<exists>d. check_disk_usage cfg ps = Inr d \<and>
         (\<forall>mp. map_of (dd_disk_usage d) mp =
                 (if mp \<in> set (disk_partitions ps) \<and> readable (disk_usage ps) mp
                  then Some (percent_used (disk_usage ps mp)) else None)) \<and>
         dd_alerts d =
           map (disk_alert jd (disk_usage ps))
             (filter (\<lambda>mp. readable (disk_usage ps) mp \<and> percent_used (disk_usage ps mp) > Td)
                (disk_partitions ps)) \<and>
         (\<forall>mp. \<not> readable (disk_usage ps) mp \<longrightarrow>
            mp \<notin> fst ` set (dd_disk_usage d) \<and>
            (\<forall>a \<in> set (dd_alerts d). \<forall>p f. a_message a \<noteq> DiskMsg mp p f))))"
proof (intro conjI impI)
  show "check_disk_usage cfg
     (ps\<lparr>disk_partitions := filter (readable (disk_usage ps)) (disk_partitions ps)\<rparr>) =
     check_disk_usage cfg ps"
    by (simp add: check_disk_usage_def disk_loop_skip_denied)
next
  assume a: "threshold_is cfg ''disk_percent'' jd Td \<and>
    (\<forall>mp \<in> set (disk_partitions ps). usable (disk_usage ps) mp)"
  let ?du = "disk_usage ps"
  let ?d = "\<lparr>dd_disk_usage =
            fold (\<lambda>mp. AList.update mp (percent_used (?du mp)))
              (filter (readable ?du) (disk_partitions ps)) [],
          dd_alerts =
            map (disk_alert jd ?du)
              (filter (\<lambda>mp. readable ?du mp \<and> percent_used (?du mp) > Td)
                 (disk_partitions ps))\<rparr>"
  have r: "check_disk_usage cfg ps = Inr ?d"
    using a check_disk_usage_eq by blast
  have m: "\<forall>mp. map_of (dd_disk_usage ?d) mp =
                 (if mp \<in> set (disk_partitions ps) \<and> readable ?du mp
                  then Some (percent_used (?du mp)) else None)"
    by (simp add: map_of_fold_update)
  have k: "\<forall>mp. \<not> readable ?du mp \<longrightarrow> mp \<notin> fst ` set (dd_disk_usage ?d)"
  proof (intro allI impI)
    fix mp assume "\<not> readable ?du mp"
    then have "map_of (dd_disk_usage ?d) mp = None" using m by simp
    then show "mp \<notin> fst ` set (dd_disk_usage ?d)" by (simp add: map_of_eq_None_iff)
  qed
  have al: "\<forall>mp. \<not> readable ?du mp \<longrightarrow>
              (\<forall>a \<in> set (dd_alerts ?d). \<forall>p f. a_message a \<noteq> DiskMsg mp p f)"
    by (auto simp: disk_alert_def)
  show "\<exists>d. check_disk_usage cfg ps = Inr d \<and>
         (\<forall>mp. map_of (dd_disk_usage d) mp =
                 (if mp \<in> set (disk_partitions ps) \<and> readable ?du mp
                  then Some (percent_used (?du mp)) else None)) \<and>
         dd_alerts d =
           map (disk_alert jd ?du)
             (filter (\<lambda>mp. readable ?du mp \<and> percent_used (?du mp) > Td)
                (disk_partitions ps)) \<and>
         (\<forall>mp. \<not> readable ?du mp \<longrightarrow>
            mp \<notin> fst ` set (dd_disk_usage d) \<and>
            (\<forall>a \<in> set (dd_alerts d). \<forall>p f. a_message a \<noteq> DiskMsg mp p f))"
    using r m k al by (intro exI [of _ ?d]) simp
qed

lemma example_mounts_usable:
  "\<forall>mp \<in> set (disk_partitions example_metrics). usable (disk_usage example_metrics) mp"
  by (simp add: example_metrics_def example_disk_usage_def usable_def)

lemma example_mounts_usable_all:
  "list_all (usable (disk_usage example_metrics)) (disk_partitions example_metrics)"
  using example_mounts_usable by (simp add: list_all_iff)

theorem check_disk_usage_skips_denied_mounts_witness:
  "threshold_is default_config ''disk_percent'' (JNum 90) 90 \<and>
   list_all (usable (disk_usage example_metrics)) (disk_partitions example_metrics) \<and>
   \<not> readable (disk_usage example_metrics) ''/root'' \<and>
   check_disk_usage default_config example_metrics =
     Inr \<lparr>dd_disk_usage = [(''/'', 96), (''/data'', 50)],
          dd_alerts = [disk_alert (JNum 90) example_disk_usage ''/'']\<rparr> \<and>
   check_disk_usage default_config (example_metrics\<lparr>disk_partitions := [''/'', ''/data'']\<rparr>) =
     check_disk_usage default_config example_metrics"
proof -
  note t = threshold_default_disk
  note u = example_mounts_usable
  have n: "\<not> readable (disk_usage example_metrics) ''/root''"
    by (simp add: example_metrics_def example_disk_usage_def readable_def)
  have f: "filter (readable (disk_usage example_metrics)) (disk_partitions example_metrics) =
             [''/'', ''/data'']"
    by (simp add: example_metrics_def example_disk_usage_def readable_def)
  from check_disk_usage_skips_denied_mounts [of default_config example_metrics "JNum 90" 90] t u
  obtain d where d: "check_disk_usage default_config example_metrics = Inr d"
    and al: "dd_alerts d = map (disk_alert (JNum 90) (disk_usage example_metrics))
             (filter (\<lambda>mp. readable (disk_usage example_metrics) mp \<and>
                        percent_used (disk_usage example_metrics mp) > 90)
                (disk_partitions example_metrics))"
    and eq: "check_disk_usage default_config
       (example_metrics\<lparr>disk_partitions :=
          filter (readable (disk_usage example_metrics)) (disk_partitions example_metrics)\<rparr>) =
       check_disk_usage default_config example_metrics"
    by blast
  have v: "check_disk_usage default_config example_metrics =
     Inr \<lparr>dd_disk_usage = [(''/'', 96), (''/data'', 50)],
          dd_alerts = [disk_alert (JNum 90) example_disk_usage ''/'']\<rparr>"
    using check_disk_usage_eq [OF t u]
    by (simp add: example_metrics_def example_disk_usage_def readable_def)
  show ?thesis using t example_mounts_usable_all n v eq f by simp
qed

section \<open>Which candidates a cycle yields\<close>

lemma threshold_default_all:
  "threshold_is default_config ''cpu_percent'' (JNum 80) 80"
  "threshold_is default_config ''load_average'' (JNum 4) 4"
  "threshold_is default_config ''memory_percent'' (JNum 85) 85"
  by (simp_all add: threshold_is_def threshold_def default_config_def)

lemma alert_types [simp]:
  "a_type (cpu_alert j v) = ''cpu_high''"
  "a_type (load_alert j v) = ''load_high''"
  "a_type (memory_alert j v u) = ''memory_high''"
  "a_type (swap_alert v) = ''swap_high''"
  "a_type (disk_alert j du mp) = ''disk_high''"
  "a_type (process_alert p) = ''process_high_cpu''"
  by (simp_all add: cpu_alert_def load_alert_def memory_alert_def swap_alert_def
        disk_alert_def process_alert_def)

lemma filter_map_const_type:
  "(\<And>x. a_type (f x) = t) \<Longrightarrow>
   filter (\<lambda>a. a_type a = t') (map f xs) = (if t = t' then map f xs else [])"
  by (induction xs) auto

text \<open>
  Claim C2. With the four thresholds numbers and no usage query failing other than by
  PermissionError, the checks return, and among the candidates of the cycle: there is a
  CPU, load or memory candidate exactly when the value is above its threshold, one at
  most, with priority high exactly when the value is above 95, 8 and 95, and medium
  otherwise; a swap candidate exactly when swap is above 50, always high; one disk
  candidate for each queried mount whose percentage is above the disk threshold and for
  no other, high exactly when the percentage is above 95; one process candidate for each
  of the five processes of highest CPU share whose share is above 50 and for no other,
  always medium. No candidate has another type.
\<close>

theorem candidates_iff_threshold_exceeded:
  assumes "threshold_is cfg ''cpu_percent'' jc Tc" and "threshold_is cfg ''load_average'' jl Tl"
    and "threshold_is cfg ''memory_percent'' jm Tm" and "threshold_is cfg ''disk_percent'' jd Td"
    and "\<forall>mp \<in> set (disk_partitions ps). usable (disk_usage ps) mp"
  shows "\<exists>d. run_checks cfg ps = Inr d \<and>
     map (\<lambda>a. (a_value a, a_priority a)) (filter (\<lambda>a. a_type a = ''cpu_high'') (all_alerts d)) =
       (if cpu_percent ps > Tc
        then [(cpu_percent ps, if cpu_percent ps > 95 then ''high'' else ''medium'')] else []) \<and>
     map (\<lambda>a. (a_value a, a_priority a)) (filter (\<lambda>a. a_type a = ''load_high'') (all_alerts d)) =
       (if load_avg_of ps > Tl
        then [(load_avg_of ps, if load_avg_of ps > 8 then ''high'' else ''medium'')] else []) \<and>
     map (\<lambda>a. (a_value a, a_priority a)) (filter (\<lambda>a. a_type a = ''memory_high'') (all_alerts d)) =
       (if virtual_memory_percent ps > Tm
        then [(virtual_memory_percent ps,
               if virtual_memory_percent ps > 95 then ''high'' else ''medium'')] else []) \<and>
     map (\<lambda>a. (a_value a, a_priority a)) (filter (\<lambda>a. a_type a = ''swap_high'') (all_alerts d)) =
       (if swap_memory_percent ps > 50 then [(swap_memory_percent ps, ''high'')] else []) \<and>
     map (\<lambda>a. (a_value a, a_priority a)) (filter (\<lambda>a. a_type a = ''disk_high'') (all_alerts d)) =
       map (\<lambda>mp. (percent_used (disk_usage ps mp),
                  if percent_used (disk_usage ps mp) > 95 then ''high'' else ''medium''))
         (filter (\<lambda>mp. readable (disk_usage ps) mp \<and> percent_used (disk_usage ps mp) > Td)
            (disk_partitions ps)) \<and>
     map (\<lambda>a. (a_value a, a_priority a))
         (filter (\<lambda>a. a_type a = ''process_high_cpu'') (all_alerts d)) =
       map (\<lambda>p. (snd (snd p), ''medium''))
         (filter (\<lambda>p. snd (snd p) > 50) (take 5 (sort_by_cpu_desc (process_iter ps)))) \<and>
     (\<forall>a \<in> set (all_alerts d).
        a_type a \<in> {''cpu_high'', ''load_high'', ''memory_high'', ''swap_high'', ''disk_high'',
                     ''process_high_cpu''})"
proof -
  from run_checks_eq [OF assms] obtain d where r: "run_checks cfg ps = Inr d"
    and a: "all_alerts d =
       (if cpu_percent ps > Tc then [cpu_alert jc (cpu_percent ps)] else []) @
       (if load_avg_of ps > Tl then [load_alert jl (load_avg_of ps)] else []) @
       (if virtual_memory_percent ps > Tm
        then [memory_alert jm (virtual_memory_percent ps) (virtual_memory_used ps)] else []) @
       (if swap_memory_percent ps > 50 then [swap_alert (swap_memory_percent ps)] else []) @
       map (disk_alert jd (disk_usage ps))
         (filter (\<lambda>mp. readable (disk_usage ps) mp \<and> percent_used (disk_usage ps mp) > Td)
            (disk_partitions ps)) @
       map process_alert
         (filter (\<lambda>p. snd (snd p) > 50) (take 5 (sort_by_cpu_desc (process_iter ps))))"
    by blast
  have d0: "\<And>t xs. filter (\<lambda>a. a_type a = t) (map (disk_alert jd (disk_usage ps)) xs) =
              (if ''disk_high'' = t then map (disk_alert jd (disk_usage ps)) xs else [])"
    by (rule filter_map_const_type) simp
  have p0: "\<And>t xs. filter (\<lambda>a. a_type a = t) (map process_alert xs) =
              (if ''process_high_cpu'' = t then map process_alert xs else [])"
    by (rule filter_map_const_type) simp
  have 1: "map (\<lambda>a. (a_value a, a_priority a))
             (filter (\<lambda>a. a_type a = ''cpu_high'') (all_alerts d)) =
       (if cpu_percent ps > Tc
        then [(cpu_percent ps, if cpu_percent ps > 95 then ''high'' else ''medium'')] else [])"
    unfolding a by (simp add: d0 p0) (simp add: cpu_alert_def)
  have 2: "map (\<lambda>a. (a_value a, a_priority a))
             (filter (\<lambda>a. a_type a = ''load_high'') (all_alerts d)) =
       (if load_avg_of ps > Tl
        then [(load_avg_of ps, if load_avg_of ps > 8 then ''high'' else ''medium'')] else [])"
    unfolding a by (simp add: d0 p0) (simp add: load_alert_def)
  have 3: "map (\<lambda>a. (a_value a, a_priority a))
             (filter (\<lambda>a. a_type a = ''memory_high'') (all_alerts d)) =
       (if virtual_memory_percent ps > Tm
        then [(virtual_memory_percent ps,
               if virtual_memory_percent ps > 95 then ''high'' else ''medium'')] else [])"
    unfolding a by (simp add: d0 p0) (simp add: memory_alert_def)
  have 4: "map (\<lambda>a. (a_value a, a_priority a))
             (filter (\<lambda>a. a_type a = ''swap_high'') (all_alerts d)) =
       (if swap_memory_percent ps > 50 then [(swap_memory_percent ps, ''high'')] else [])"
    unfolding a by (simp add: d0 p0) (simp add: swap_alert_def)
  have 5: "map (\<lambda>a. (a_value a, a_priority a))
             (filter (\<lambda>a. a_type a = ''disk_high'') (all_alerts d)) =
       map (\<lambda>mp. (percent_used (disk_usage ps mp),
                  if percent_used (disk_usage ps mp) > 95 then ''high'' else ''medium''))
         (filter (\<lambda>mp. readable (disk_usage ps) mp \<and> percent_used (disk_usage ps mp) > Td)
            (disk_partitions ps))"
    unfolding a by (simp add: d0 p0) (simp add: disk_alert_def)
  have 6: "map (\<lambda>a. (a_value a, a_priority a))
             (filter (\<lambda>a. a_type a = ''process_high_cpu'') (all_alerts d)) =
       map (\<lambda>p. (snd (snd p), ''medium''))
         (filter (\<lambda>p. snd (snd p) > 50) (take 5 (sort_by_cpu_desc (process_iter ps))))"
    unfolding a by (simp add: d0 p0) (simp add: process_alert_def)
  have 7: "\<forall>a \<in> set (all_alerts d).
        a_type a \<in> {''cpu_high'', ''load_high'', ''memory_high'', ''swap_high'', ''disk_high'',
                     ''process_high_cpu''}"
    unfolding a by auto
  from r 1 2 3 4 5 6 7 show ?thesis by blast
qed

lemma example_sorted_processes:
  "sort_by_cpu_desc (process_iter example_metrics) =
     [(16, ''f'', 90), (15, ''e'', 80), (13, ''c'', 70), (17, ''g'', 65), (11, ''a'', 60),
      (14, ''d'', 55), (12, ''b'', 10)]"
  by (simp add: sort_by_cpu_desc_def example_metrics_def)

lemma example_breaching_mounts:
  "filter (\<lambda>mp. readable (disk_usage example_metrics) mp \<and>
                percent_used (disk_usage example_metrics mp) > 90)
     (disk_partitions example_metrics) = [''/'']"
  by (simp add: example_metrics_def example_disk_usage_def readable_def)

lemma example_gauges:
  "cpu_percent example_metrics = 97" "load_avg_of example_metrics = 5"
  "virtual_memory_percent example_metrics = 50" "swap_memory_percent example_metrics = 60"
  "percent_used (disk_usage example_metrics ''/'') = 96"
  by (simp_all add: example_metrics_def load_avg_of_def example_disk_usage_def)

theorem candidates_iff_threshold_exceeded_witness:
  "threshold_is default_config ''cpu_percent'' (JNum 80) 80 \<and>
   threshold_is default_config ''load_average'' (JNum 4) 4 \<and>
   threshold_is default_config ''memory_percent'' (JNum 85) 85 \<and>
   threshold_is default_config ''disk_percent'' (JNum 90) 90 \<and>
   list_all (usable (disk_usage example_metrics)) (disk_partitions example_metrics) \<and>
   (\<exists>d. run_checks default_config example_metrics = Inr d \<and>
     map (\<lambda>a. (a_value a, a_priority a)) (filter (\<lambda>a. a_type a = ''cpu_high'') (all_alerts d)) =
       [(97, ''high'')] \<and>
     map (\<lambda>a. (a_value a, a_priority a)) (filter (\<lambda>a. a_type a = ''load_high'') (all_alerts d)) =
       [(5, ''medium'')] \<and>
     map (\<lambda>a. (a_value a, a_priority a)) (filter (\<lambda>a. a_type a = ''memory_high'') (all_alerts d)) =
       [] \<and>
     map (\<lambda>a. (a_value a, a_priority a)) (filter (\<lambda>a. a_type a = ''swap_high'') (all_alerts d)) =
       [(60, ''high'')] \<and>
     map (\<lambda>a. (a_value a, a_priority a)) (filter (\<lambda>a. a_type a = ''disk_high'') (all_alerts d)) =
       [(96, ''high'')] \<and>
     map (\<lambda>a. (a_value a, a_priority a))
         (filter (\<lambda>a. a_type a = ''process_high_cpu'') (all_alerts d)) =
       [(90, ''medium''), (80, ''medium''), (70, ''medium''), (65, ''medium''), (60, ''medium'')])"
proof -
  note t = threshold_default_all threshold_default_disk
  note u = example_mounts_usable
  from candidates_iff_threshold_exceeded [OF t u]
  obtain d where r: "run_checks default_config example_metrics = Inr d"
    and 1: "map (\<lambda>a. (a_value a, a_priority a))
              (filter (\<lambda>a. a_type a = ''cpu_high'') (all_alerts d)) =
       (if cpu_percent example_metrics > 80
        then [(cpu_percent example_metrics,
               if cpu_percent example_metrics > 95 then ''high'' else ''medium'')] else [])"
    and 2: "map (\<lambda>a. (a_value a, a_priority a))
              (filter (\<lambda>a. a_type a = ''load_high'') (all_alerts d)) =
       (if load_avg_of example_metrics > 4
        then [(load_avg_of example_metrics,
               if load_avg_of example_metrics > 8 then ''high'' else ''medium'')] else [])"
    and 3: "map (\<lambda>a. (a_value a, a_priority a))
              (filter (\<lambda>a. a_type a = ''memory_high'') (all_alerts d)) =
       (if virtual_memory_percent example_metrics > 85
        then [(virtual_memory_percent example_metrics,
               if virtual_memory_percent example_metrics > 95 then ''high'' else ''medium'')]
        else [])"
    and 4: "map (\<lambda>a. (a_value a, a_priority a))
              (filter (\<lambda>a. a_type a = ''swap_high'') (all_alerts d)) =
       (if swap_memory_percent example_metrics > 50
        then [(swap_memory_percent example_metrics, ''high'')] else [])"
    and 5: "map (\<lambda>a. (a_value a, a_priority a))
              (filter (\<lambda>a. a_type a = ''disk_high'') (all_alerts d)) =
       map (\<lambda>mp. (percent_used (disk_usage example_metrics mp),
                  if percent_used (disk_usage example_metrics mp) > 95
                  then ''high'' else ''medium''))
         (filter (\<lambda>mp. readable (disk_usage example_metrics) mp \<and>
                       percent_used (disk_usage example_metrics mp) > 90)
            (disk_partitions example_metrics))"
    and 6: "map (\<lambda>a. (a_value a, a_priority a))
              (filter (\<lambda>a. a_type a = ''process_high_cpu'') (all_alerts d)) =
       map (\<lambda>p. (snd (snd p), ''medium''))
         (filter (\<lambda>p. snd (snd p) > 50)
            (take 5 (sort_by_cpu_desc (process_iter example_metrics))))"
    by blast
  have v1: "map (\<lambda>a. (a_value a, a_priority a))
              (filter (\<lambda>a. a_type a = ''cpu_high'') (all_alerts d)) = [(97, ''high'')]"
    using 1 by (simp add: example_gauges)
  have v2: "map (\<lambda>a. (a_value a, a_priority a))
              (filter (\<lambda>a. a_type a = ''load_high'') (all_alerts d)) = [(5, ''medium'')]"
    using 2 by (simp add: example_gauges)
  have v3: "map (\<lambda>a. (a_value a, a_priority a))
              (filter (\<lambda>a. a_type a = ''memory_high'') (all_alerts d)) = []"
    using 3 by (simp add: example_gauges)
  have v4: "map (\<lambda>a. (a_value a, a_priority a))
              (filter (\<lambda>a. a_type a = ''swap_high'') (all_alerts d)) = [(60, ''high'')]"
    using 4 by (simp add: example_gauges)
  have v5: "map (\<lambda>a. (a_value a, a_priority a))
              (filter (\<lambda>a. a_type a = ''disk_high'') (all_alerts d)) = [(96, ''high'')]"
    using 5 by (simp add: example_breaching_mounts example_gauges)
  have v6: "map (\<lambda>a. (a_value a, a_priority a))
              (filter (\<lambda>a. a_type a = ''process_high_cpu'') (all_alerts d)) =
       [(90, ''medium''), (80, ''medium''), (70, ''medium''), (65, ''medium''), (60, ''medium'')]"
    using 6 by (simp add: example_sorted_processes)
  show ?thesis
    by (intro conjI exI [of _ d]) (fact r v1 v2 v3 v4 v5 v6 t example_mounts_usable_all)+
qed

section \<open>The order of the candidates\<close>

lemma sort_by_cpu_desc_props:
  "mset (sort_by_cpu_desc procs) = mset procs"
  "sorted_wrt (\<lambda>p q. snd (snd p) \<ge> snd (snd q)) (sort_by_cpu_desc procs)"
proof -
  show "mset (sort_by_cpu_desc procs) = mset procs"
    by (simp add: sort_by_cpu_desc_def)
  have "sorted (map (\<lambda>p. - snd (snd p)) (sort_by_cpu_desc procs))"
    by (simp add: sort_by_cpu_desc_def)
  then show "sorted_wrt (\<lambda>p q. snd (snd p) \<ge> snd (snd q)) (sort_by_cpu_desc procs)"
    by (simp add: sorted_map)
qed

text \<open>
  Claim C7. With the four thresholds numbers and no usage query failing other than by
  PermissionError, the candidates of a cycle are, in this order: the CPU candidate, the
  load candidate, the memory candidate, the swap candidate, each if its rule is
  breached; the disk candidates of the breaching mounts in the order in which the
  partitions are enumerated; the process candidates of those among the first five
  processes of the list sorted by descending CPU share that are above 50, in that sorted
  order. The sorted list is a rearrangement of the enumerated processes in which no
  process comes before one of a higher share.
\<close>

theorem candidates_in_check_order:
  assumes "threshold_is cfg ''cpu_percent'' jc Tc" and "threshold_is cfg ''load_average'' jl Tl"
    and "threshold_is cfg ''memory_percent'' jm Tm" and "threshold_is cfg ''disk_percent'' jd Td"
    and "\<forall>mp \<in> set (disk_partitions ps). usable (disk_usage ps) mp"
  shows "\<exists>d. run_checks cfg ps = Inr d \<and>
     map a_message (all_alerts d) =
       (if cpu_percent ps > Tc then [CpuMsg (cpu_percent ps)] else []) @
       (if load_avg_of ps > Tl then [LoadMsg (load_avg_of ps)] else []) @
       (if virtual_memory_percent ps > Tm
        then [MemoryMsg (virtual_memory_percent ps) (virtual_memory_used ps div (1024 ^ 3))]
        else []) @
       (if swap_memory_percent ps > 50 then [SwapMsg (swap_memory_percent ps)] else []) @
       map (\<lambda>mp. DiskMsg mp (percent_used (disk_usage ps mp)) (free_gb (disk_usage ps mp)))
         (filter (\<lambda>mp. readable (disk_usage ps) mp \<and> percent_used (disk_usage ps mp) > Td)
            (disk_partitions ps)) @
       map (\<lambda>p. ProcessMsg (fst (snd p)) (fst p) (snd (snd p)))
         (filter (\<lambda>p. snd (snd p) > 50) (take 5 (sort_by_cpu_desc (process_iter ps)))) \<and>
     map a_type (all_alerts d) =
       (if cpu_percent ps > Tc then [''cpu_high''] else []) @
       (if load_avg_of ps > Tl then [''load_high''] else []) @
       (if virtual_memory_percent ps > Tm then [''memory_high''] else []) @
       (if swap_memory_percent ps > 50 then [''swap_high''] else []) @
       map (\<lambda>mp. ''disk_high'')
         (filter (\<lambda>mp. readable (disk_usage ps) mp \<and> percent_used (disk_usage ps mp) > Td)
            (disk_partitions ps)) @
       map (\<lambda>p. ''process_high_cpu'')
         (filter (\<lambda>p. snd (snd p) > 50) (take 5 (sort_by_cpu_desc (process_iter ps)))) \<and>
     mset (sort_by_cpu_desc (process_iter ps)) = mset (process_iter ps) \<and>
     sorted_wrt (\<lambda>p q. snd (snd p) \<ge> snd (snd q)) (sort_by_cpu_desc (process_iter ps))"
proof -
  from run_checks_eq [OF assms] obtain d where r: "run_checks cfg ps = Inr d"
    and a: "all_alerts d =
       (if cpu_percent ps > Tc then [cpu_alert jc (cpu_percent ps)] else []) @
       (if load_avg_of ps > Tl then [load_alert jl (load_avg_of ps)] else []) @
       (if virtual_memory_percent ps > Tm
        then [memory_alert jm (virtual_memory_percent ps) (virtual_memory_used ps)] else []) @
       (if swap_memory_percent ps > 50 then [swap_alert (swap_memory_percent ps)] else []) @
       map (disk_alert jd (disk_usage ps))
         (filter (\<lambda>mp. readable (disk_usage ps) mp \<and> percent_used (disk_usage ps mp) > Td)
            (disk_partitions ps)) @
       map process_alert
         (filter (\<lambda>p. snd (snd p) > 50) (take 5 (sort_by_cpu_desc (process_iter ps))))"
    by blast
  have m: "map a_message (all_alerts d) =
       (if cpu_percent ps > Tc then [CpuMsg (cpu_percent ps)] else []) @
       (if load_avg_of ps > Tl then [LoadMsg (load_avg_of ps)] else []) @
       (if virtual_memory_percent ps > Tm
        then [MemoryMsg (virtual_memory_percent ps) (virtual_memory_used ps div (1024 ^ 3))]
        else []) @
       (if swap_memory_percent ps > 50 then [SwapMsg (swap_memory_percent ps)] else []) @
       map (\<lambda>mp. DiskMsg mp (percent_used (disk_usage ps mp)) (free_gb (disk_usage ps mp)))
         (filter (\<lambda>mp. readable (disk_usage ps) mp \<and> percent_used (disk_usage ps mp) > Td)
            (disk_partitions ps)) @
       map (\<lambda>p. ProcessMsg (fst (snd p)) (fst p) (snd (snd p)))
         (filter (\<lambda>p. snd (snd p) > 50) (take 5 (sort_by_cpu_desc (process_iter ps))))"
    unfolding a
    by (simp add: cpu_alert_def load_alert_def memory_alert_def swap_alert_def
          disk_alert_def process_alert_def o_def)
  have t: "map a_type (all_alerts d) =
       (if cpu_percent ps > Tc then [''cpu_high''] else []) @
       (if load_avg_of ps > Tl then [''load_high''] else []) @
       (if virtual_memory_percent ps > Tm then [''memory_high''] else []) @
       (if swap_memory_percent ps > 50 then [''swap_high''] else []) @
       map (\<lambda>mp. ''disk_high'')
         (filter (\<lambda>mp. readable (disk_usage ps) mp \<and> percent_used (disk_usage ps mp) > Td)
            (disk_partitions ps)) @
       map (\<lambda>p. ''process_high_cpu'')
         (filter (\<lambda>p. snd (snd p) > 50) (take 5 (sort_by_cpu_desc (process_iter ps))))"
    unfolding a by (simp add: o_def)
  show ?thesis
    by (intro conjI exI [of _ d]) (fact r m t sort_by_cpu_desc_props)+
qed

theorem candidates_in_check_order_witness:
  "threshold_is default_config ''cpu_percent'' (JNum 80) 80 \<and>
   threshold_is default_config ''load_average'' (JNum 4) 4 \<and>
   threshold_is default_config ''memory_percent'' (JNum 85) 85 \<and>
   threshold_is default_config ''disk_percent'' (JNum 90) 90 \<and>
   list_all (usable (disk_usage example_metrics)) (disk_partitions example_metrics) \<and>
   (\<exists>d. run_checks default_config example_metrics = Inr d \<and>
     map a_message (all_alerts d) =
       [CpuMsg 97, LoadMsg 5, SwapMsg 60, DiskMsg ''/'' 96 0,
        ProcessMsg ''f'' 16 90, ProcessMsg ''e'' 15 80, ProcessMsg ''c'' 13 70,
        ProcessMsg ''g'' 17 65, ProcessMsg ''a'' 11 60])"
proof -
  note t = threshold_default_all threshold_default_disk
  note u = example_mounts_usable
  from candidates_in_check_order [OF t u]
  obtain d where r: "run_checks default_config example_metrics = Inr d"
    and m: "map a_message (all_alerts d) =
       (if cpu_percent example_metrics > 80 then [CpuMsg (cpu_percent example_metrics)] else []) @
       (if load_avg_of example_metrics > 4 then [LoadMsg (load_avg_of example_metrics)] else []) @
       (if virtual_memory_percent example_metrics > 85
        then [MemoryMsg (virtual_memory_percent example_metrics)
                (virtual_memory_used example_metrics div (1024 ^ 3))]
        else []) @
       (if swap_memory_percent example_metrics > 50
        then [SwapMsg (swap_memory_percent example_metrics)] else []) @
       map (\<lambda>mp. DiskMsg mp (percent_used (disk_usage example_metrics mp))
                   (free_gb (disk_usage example_metrics mp)))
         (filter (\<lambda>mp. readable (disk_usage example_metrics) mp \<and>
                       percent_used (disk_usage example_metrics mp) > 90)
            (disk_partitions example_metrics)) @
       map (\<lambda>p. ProcessMsg (fst (snd p)) (fst p) (snd (snd p)))
         (filter (\<lambda>p. snd (snd p) > 50)
            (take 5 (sort_by_cpu_desc (process_iter example_metrics))))"
    by blast
  have f: "free_gb (disk_usage example_metrics ''/'') = 0"
    by (simp add: example_metrics_def example_disk_usage_def)
  have v: "map a_message (all_alerts d) =
       [CpuMsg 97, LoadMsg 5, SwapMsg 60, DiskMsg ''/'' 96 0,
        ProcessMsg ''f'' 16 90, ProcessMsg ''e'' 15 80, ProcessMsg ''c'' 13 70,
        ProcessMsg ''g'' 17 65, ProcessMsg ''a'' 11 60]"
    using m
    by (simp add: example_gauges example_breaching_mounts example_sorted_processes f)
  show ?thesis
    by (intro conjI exI [of _ d]) (fact r v t example_mounts_usable_all)+
qed

section \<open>The loop over the candidates\<close>

lemma alert_loop_step:
  assumes "cooldown_period (config self) = Some c"
  shows "alert_loop env d k (a # rest) self att =
     (if time_time env k - history_get (alert_history self) (a_type a) > c
      then alert_loop env d (Suc k) rest
             (self\<lparr>alert_history := (alert_history self)(a_type a \<mapsto> time_time env k)\<rparr>)
             (att @ [attempt_for env d (config self) k a])
      else alert_loop env d (Suc k) rest self att)"
  by (simp add: should_send_alert_eq [OF assms] attempt_for_def Let_def)

lemma alert_loop_shape:
  assumes "cooldown_period (config self) = Some c"
    and "alert_loop env d k as self att = (r, self', att')"
  shows "r = None \<and> config self' = config self \<and>
         (\<exists>new. att' = att @ new \<and>
            (\<forall>x \<in> set new. k \<le> at_index x \<and> at_index x < k + length as \<and>
               x = attempt_for env d (config self) (at_index x) (as ! (at_index x - k))))"
  using assms
proof (induction as arbitrary: k self att)
  case Nil
  then show ?case by simp
next
  case (Cons a rest)
  show ?case
  proof (cases "time_time env k - history_get (alert_history self) (a_type a) > c")
    case True
    let ?s = "self\<lparr>alert_history := (alert_history self)(a_type a \<mapsto> time_time env k)\<rparr>"
    let ?x = "attempt_for env d (config self) k a"
    have c: "cooldown_period (config ?s) = Some c" using Cons.prems(1) by simp
    have l: "alert_loop env d (Suc k) rest ?s (att @ [?x]) = (r, self', att')"
      using Cons.prems(2) True unfolding alert_loop_step [OF Cons.prems(1)] by simp
    from Cons.IH [OF c l] obtain new where r: "r = None" and cf: "config self' = config self"
      and a: "att' = (att @ [?x]) @ new"
      and n: "\<forall>x \<in> set new. Suc k \<le> at_index x \<and> at_index x < Suc k + length rest \<and>
               x = attempt_for env d (config self) (at_index x) (rest ! (at_index x - Suc k))"
      by auto
    have "\<forall>x \<in> set (?x # new). k \<le> at_index x \<and> at_index x < k + length (a # rest) \<and>
               x = attempt_for env d (config self) (at_index x) ((a # rest) ! (at_index x - k))"
    proof
      fix x assume "x \<in> set (?x # new)"
      then consider "x = ?x" | "x \<in> set new" by auto
      then show "k \<le> at_index x \<and> at_index x < k + length (a # rest) \<and>
               x = attempt_for env d (config self) (at_index x) ((a # rest) ! (at_index x - k))"
      proof cases
        case 1
        then show ?thesis by (simp add: attempt_for_def)
      next
        case 2
        with n have b: "Suc k \<le> at_index x" "at_index x < Suc k + length rest"
          and e: "x = attempt_for env d (config self) (at_index x) (rest ! (at_index x - Suc k))"
          by auto
        from b have "(a # rest) ! (at_index x - k) = rest ! (at_index x - Suc k)"
          by (simp add: nth_Cons split: nat.splits) (metis Suc_diff_Suc Suc_le_lessD diff_Suc_Suc nat.inject)
        with b e show ?thesis by simp
      qed
    qed
    with r cf a show ?thesis by (intro conjI exI [of _ "?x # new"]) simp_all
  next
    case False
    have l: "alert_loop env d (Suc k) rest self att = (r, self', att')"
      using Cons.prems(2) False unfolding alert_loop_step [OF Cons.prems(1)] by simp
    from Cons.IH [OF Cons.prems(1) l] obtain new where r: "r = None"
      and cf: "config self' = config self" and a: "att' = att @ new"
      and n: "\<forall>x \<in> set new. Suc k \<le> at_index x \<and> at_index x < Suc k + length rest \<and>
               x = attempt_for env d (config self) (at_index x) (rest ! (at_index x - Suc k))"
      by auto
    have "\<forall>x \<in> set new. k \<le> at_index x \<and> at_index x < k + length (a # rest) \<and>
               x = attempt_for env d (config self) (at_index x) ((a # rest) ! (at_index x - k))"
    proof
      fix x assume "x \<in> set new"
      with n have b: "Suc k \<le> at_index x" "at_index x < Suc k + length rest"
        and e: "x = attempt_for env d (config self) (at_index x) (rest ! (at_index x - Suc k))"
        by auto
      from b have "(a # rest) ! (at_index x - k) = rest ! (at_index x - Suc k)"
        by (simp add: nth_Cons split: nat.splits) (metis Suc_diff_Suc Suc_le_lessD diff_Suc_Suc nat.inject)
      with b e show "k \<le> at_index x \<and> at_index x < k + length (a # rest) \<and>
               x = attempt_for env d (config self) (at_index x) ((a # rest) ! (at_index x - k))"
        by simp
    qed
    with r cf a show ?thesis by blast
  qed
qed

lemma alert_loop_indices:
  assumes "cooldown_period (config self) = Some c"
    and "alert_loop env d k as self att = (r, self', att')"
    and "x \<in> set att'" and "x \<notin> set att"
  shows "k \<le> at_index x \<and> at_index x < k + length as"
  using alert_loop_shape [OF assms(1,2)] assms(3,4) by auto

text \<open>While the gate calls for one alert type stay within the cooldown period of its
  stored timestamp, the loop admits no candidate of that type.\<close>

lemma alert_loop_frozen:
  assumes "cooldown_period (config self) = Some c"
    and "alert_loop env d k as self att = (r, self', att')"
    and "j < length as" and "a_type (as ! j) = a"
    and "\<forall>m \<le> j. a_type (as ! m) = a \<longrightarrow>
           time_time env (k + m) - history_get (alert_history self) a \<le> c"
    and "x \<in> set att'" and "at_index x = k + j"
  shows "x \<in> set att"
  using assms
proof (induction as arbitrary: k self att j)
  case Nil
  then show ?case by simp
next
  case (Cons a0 rest)
  note step = alert_loop_step [OF Cons.prems(1), of env d k a0 rest att]
  show ?case
  proof (cases j)
    case 0
    with Cons.prems(4,5) have "\<not> time_time env k - history_get (alert_history self) (a_type a0) > c"
      by fastforce
    with Cons.prems(2) step have l: "alert_loop env d (Suc k) rest self att = (r, self', att')"
      by simp
    show ?thesis
    proof (rule ccontr)
      assume "x \<notin> set att"
      from alert_loop_indices [OF Cons.prems(1) l Cons.prems(6) this] Cons.prems(7) 0
      show False by simp
    qed
  next
    case (Suc j')
    have jl: "j' < length rest" and ty: "a_type (rest ! j') = a"
      using Cons.prems(3,4) Suc by auto
    show ?thesis
    proof (cases "time_time env k - history_get (alert_history self) (a_type a0) > c")
      case True
      let ?s = "self\<lparr>alert_history := (alert_history self)(a_type a0 \<mapsto> time_time env k)\<rparr>"
      let ?x = "attempt_for env d (config self) k a0"
      have ne: "a_type a0 \<noteq> a"
      proof
        assume "a_type a0 = a"
        with Cons.prems(5) [rule_format, of 0] True show False by simp
      qed
      have c: "cooldown_period (config ?s) = Some c" using Cons.prems(1) by simp
      have l: "alert_loop env d (Suc k) rest ?s (att @ [?x]) = (r, self', att')"
        using Cons.prems(2) step True by simp
      have h: "history_get (alert_history ?s) a = history_get (alert_history self) a"
        using ne by (simp add: history_get_def)
      have w: "\<forall>m \<le> j'. a_type (rest ! m) = a \<longrightarrow>
           time_time env (Suc k + m) - history_get (alert_history ?s) a \<le> c"
        unfolding h using Cons.prems(5) Suc by (auto dest: spec [of _ "Suc m" for m])
      have i: "at_index x = Suc k + j'" using Cons.prems(7) Suc by simp
      from Cons.IH [OF c l jl ty w Cons.prems(6) i] have "x \<in> set (att @ [?x])" .
      moreover have "x \<noteq> ?x" using i by (auto simp: attempt_for_def)
      ultimately show ?thesis by simp
    next
      case False
      have l: "alert_loop env d (Suc k) rest self att = (r, self', att')"
        using Cons.prems(2) step False by simp
      have w: "\<forall>m \<le> j'. a_type (rest ! m) = a \<longrightarrow>
           time_time env (Suc k + m) - history_get (alert_history self) a \<le> c"
        using Cons.prems(5) Suc by (auto dest: spec [of _ "Suc m" for m])
      have i: "at_index x = Suc k + j'" using Cons.prems(7) Suc by simp
      from Cons.IH [OF Cons.prems(1) l jl ty w Cons.prems(6) i] show ?thesis .
    qed
  qed
qed

text \<open>After a candidate was admitted, a later candidate of its type is rejected when the
  gate calls for the type in between and its own stay within the cooldown period of that
  admission.\<close>

lemma alert_loop_exclusive:
  assumes "cooldown_period (config self) = Some c"
    and "alert_loop env d k as self att = (r, self', att')"
    and "\<forall>x \<in> set att. at_index x < k"
    and "i < j" and "j < length as" and "a_type (as ! j) = a_type (as ! i)"
    and "admitted att' (k + i)"
    and "\<forall>m. i < m \<and> m \<le> j \<and> a_type (as ! m) = a_type (as ! i) \<longrightarrow>
           time_time env (k + m) - time_time env (k + i) \<le> c"
  shows "\<not> admitted att' (k + j)"
  using assms
proof (induction as arbitrary: k self att i j)
  case Nil
  then show ?case by simp
next
  case (Cons a0 rest)
  note step = alert_loop_step [OF Cons.prems(1), of env d k a0 rest att]
  obtain j' where j: "j = Suc j'" using Cons.prems(4) by (cases j) auto
  have jl: "j' < length rest" using Cons.prems(5) j by simp
  show ?case
  proof (cases "time_time env k - history_get (alert_history self) (a_type a0) > c")
    case True
    let ?s = "self\<lparr>alert_history := (alert_history self)(a_type a0 \<mapsto> time_time env k)\<rparr>"
    let ?x = "attempt_for env d (config self) k a0"
    have c: "cooldown_period (config ?s) = Some c" using Cons.prems(1) by simp
    have l: "alert_loop env d (Suc k) rest ?s (att @ [?x]) = (r, self', att')"
      using Cons.prems(2) step True by simp
    have old: "\<forall>x \<in> set (att @ [?x]). at_index x < Suc k"
      using Cons.prems(3) by (auto simp: attempt_for_def less_Suc_eq)
    show ?thesis
    proof (cases i)
      case 0
      have ty: "a_type (rest ! j') = a_type a0" using Cons.prems(6) j 0 by simp
      have h: "history_get (alert_history ?s) (a_type a0) = time_time env k"
        by (simp add: history_get_def)
      have w: "\<forall>m \<le> j'. a_type (rest ! m) = a_type a0 \<longrightarrow>
           time_time env (Suc k + m) - history_get (alert_history ?s) (a_type a0) \<le> c"
        unfolding h using Cons.prems(8) j 0 by (auto dest: spec [of _ "Suc m" for m])
      show ?thesis
      proof
        assume "admitted att' (k + j)"
        then obtain x where x: "x \<in> set att'" and ix: "at_index x = Suc k + j'"
          using j by (auto simp: admitted_def)
        from alert_loop_frozen [OF c l jl ty w x ix] have "x \<in> set (att @ [?x])" .
        with old ix show False by auto
      qed
    next
      case (Suc i')
      have "\<not> admitted att' (Suc k + j')"
      proof (rule Cons.IH [OF c l old, of i' j'])
        show "i' < j'" using Cons.prems(4) j Suc by simp
        show "j' < length rest" by (rule jl)
        show "a_type (rest ! j') = a_type (rest ! i')" using Cons.prems(6) j Suc by simp
        show "admitted att' (Suc k + i')" using Cons.prems(7) Suc by simp
        show "\<forall>m. i' < m \<and> m \<le> j' \<and> a_type (rest ! m) = a_type (rest ! i') \<longrightarrow>
           time_time env (Suc k + m) - time_time env (Suc k + i') \<le> c"
          using Cons.prems(8) j Suc by (auto dest: spec [of _ "Suc m" for m])
      qed
      then show ?thesis using j by simp
    qed
  next
    case False
    have l: "alert_loop env d (Suc k) rest self att = (r, self', att')"
      using Cons.prems(2) step False by simp
    have old: "\<forall>x \<in> set att. at_index x < Suc k"
      using Cons.prems(3) by (auto simp: less_Suc_eq)
    show ?thesis
    proof (cases i)
      case 0
      from Cons.prems(7) 0 obtain x where x: "x \<in> set att'" and ix: "at_index x = k"
        by (auto simp: admitted_def)
      have "x \<notin> set att" using Cons.prems(3) ix by auto
      from alert_loop_indices [OF Cons.prems(1) l x this] ix show ?thesis by simp
    next
      case (Suc i')
      have "\<not> admitted att' (Suc k + j')"
      proof (rule Cons.IH [OF Cons.prems(1) l old, of i' j'])
        show "i' < j'" using Cons.prems(4) j Suc by simp
        show "j' < length rest" by (rule jl)
        show "a_type (rest ! j') = a_type (rest ! i')" using Cons.prems(6) j Suc by simp
        show "admitted att' (Suc k + i')" using Cons.prems(7) Suc by simp
        show "\<forall>m. i' < m \<and> m \<le> j' \<and> a_type (rest ! m) = a_type (rest ! i') \<longrightarrow>
           time_time env (Suc k + m) - time_time env (Suc k + i') \<le> c"
          using Cons.prems(8) j Suc by (auto dest: spec [of _ "Suc m" for m])
      qed
      then show ?thesis using j by simp
    qed
  qed
qed

lemma at_index_attempt_for [simp]: "at_index (attempt_for env d cfg k a) = k"
  by (simp add: attempt_for_def)

lemma at_alert_attempt_for [simp]: "at_alert (attempt_for env d cfg k a) = a"
  by (simp add: attempt_for_def)

text \<open>
  Claim C3. In one call of \<^verbatim>\<open>run_system_check\<close> with a numeric cooldown period \<open>c\<close>, let
  the candidate at position \<open>i\<close> be admitted and let a later candidate at position \<open>j\<close>
  have the same alert type. If the gate calls for that type after \<open>i\<close> up to \<open>j\<close> read
  the clock within \<open>c\<close> of the reading at \<open>i\<close>, the candidate at \<open>j\<close> is rejected: no
  email is attempted for it. The call returns without an exception, and every email
  attempted is the one for the candidate at its position.
\<close>

theorem same_cycle_exclusive:
  assumes "cooldown_period (config self) = Some c"
    and "run_checks (config self) (metrics env) = Inr d"
    and "run_system_check env self = (r, self', attempts)"
    and "i < j" and "j < length (all_alerts d)"
    and "a_type (all_alerts d ! j) = a_type (all_alerts d ! i)"
    and "admitted attempts i"
    and "\<forall>m. i < m \<and> m \<le> j \<and> a_type (all_alerts d ! m) = a_type (all_alerts d ! i) \<longrightarrow>
           time_time env m - time_time env i \<le> c"
  shows "\<not> admitted attempts j \<and> r = None \<and>
         (\<forall>x \<in> set attempts. at_index x < length (all_alerts d) \<and>
            x = attempt_for env d (config self) (at_index x) (all_alerts d ! at_index x))"
proof -
  have ne: "all_alerts d \<noteq> []" using assms(5) by auto
  have l: "alert_loop env d 0 (all_alerts d) self [] = (r, self', attempts)"
    using assms(2,3) ne by (simp add: run_system_check_def)
  have "\<not> admitted attempts (0 + j)"
    by (rule alert_loop_exclusive [OF assms(1) l _ assms(4,5,6)]) (use assms(7,8) in simp_all)
  moreover from alert_loop_shape [OF assms(1) l]
  have "r = None \<and>
         (\<forall>x \<in> set attempts. at_index x < length (all_alerts d) \<and>
            x = attempt_for env d (config self) (at_index x) (all_alerts d ! at_index x))"
    by auto
  ultimately show ?thesis by simp
qed

lemma example_candidates:
  "\<exists>d. run_checks default_config example_metrics = Inr d \<and>
     all_alerts d =
       [cpu_alert (JNum 80) 97, load_alert (JNum 4) 5, swap_alert 60,
        disk_alert (JNum 90) example_disk_usage ''/'',
        process_alert (16, ''f'', 90), process_alert (15, ''e'', 80),
        process_alert (13, ''c'', 70), process_alert (17, ''g'', 65),
        process_alert (11, ''a'', 60)]"
proof -
  from run_checks_eq [OF threshold_default_all threshold_default_disk example_mounts_usable]
  obtain d where r: "run_checks default_config example_metrics = Inr d"
    and a: "all_alerts d =
       (if cpu_percent example_metrics > 80 then [cpu_alert (JNum 80) (cpu_percent example_metrics)]
        else []) @
       (if load_avg_of example_metrics > 4 then [load_alert (JNum 4) (load_avg_of example_metrics)]
        else []) @
       (if virtual_memory_percent example_metrics > 85
        then [memory_alert (JNum 85) (virtual_memory_percent example_metrics)
                (virtual_memory_used example_metrics)] else []) @
       (if swap_memory_percent example_metrics > 50
        then [swap_alert (swap_memory_percent example_metrics)] else []) @
       map (disk_alert (JNum 90) (disk_usage example_metrics))
         (filter (\<lambda>mp. readable (disk_usage example_metrics) mp \<and>
                       percent_used (disk_usage example_metrics mp) > 90)
            (disk_partitions example_metrics)) @
       map process_alert
         (filter (\<lambda>p. snd (snd p) > 50)
            (take 5 (sort_by_cpu_desc (process_iter example_metrics))))"
    by blast
  have du: "disk_usage example_metrics = example_disk_usage"
    by (simp add: example_metrics_def)
  have "all_alerts d =
       [cpu_alert (JNum 80) 97, load_alert (JNum 4) 5, swap_alert 60,
        disk_alert (JNum 90) example_disk_usage ''/'',
        process_alert (16, ''f'', 90), process_alert (15, ''e'', 80),
        process_alert (13, ''c'', 70), process_alert (17, ''g'', 65),
        process_alert (11, ''a'', 60)]"
    using a
    by (simp add: example_gauges example_breaching_mounts example_sorted_processes) (simp add: du)
  with r show ?thesis by blast
qed

lemma alert_loop_default_step:
  "alert_loop env d k (a # rest) (fresh_system\<lparr>alert_history := h\<rparr>) att =
     (if time_time env k - history_get h (a_type a) > 300
      then alert_loop env d (Suc k) rest
             (fresh_system\<lparr>alert_history := h(a_type a \<mapsto> time_time env k)\<rparr>)
             (att @ [attempt_for env d default_config k a])
      else alert_loop env d (Suc k) rest (fresh_system\<lparr>alert_history := h\<rparr>) att)"
proof -
  have c: "cooldown_period (config (fresh_system\<lparr>alert_history := h\<rparr>)) = Some 300"
    by (simp add: fresh_system_def cooldown_default)
  show ?thesis
    unfolding alert_loop_step [OF c] by (simp add: fresh_system_def)
qed

lemma fresh_system_history: "fresh_system = fresh_system\<lparr>alert_history := Map.empty\<rparr>"
  by (simp add: fresh_system_def)

lemma example_cycle:
  assumes "run_checks default_config example_metrics = Inr d"
    and "all_alerts d =
       [cpu_alert (JNum 80) 97, load_alert (JNum 4) 5, swap_alert 60,
        disk_alert (JNum 90) example_disk_usage ''/'',
        process_alert (16, ''f'', 90), process_alert (15, ''e'', 80),
        process_alert (13, ''c'', 70), process_alert (17, ''g'', 65),
        process_alert (11, ''a'', 60)]"
    and m: "metrics env = example_metrics"
    and t: "\<And>k. time_time env k = b + real k" and b: "b = 1000 \<or> b = 1010"
  shows "\<exists>s. run_system_check env fresh_system = (None, s,
           [attempt_for env d default_config 0 (cpu_alert (JNum 80) 97),
            attempt_for env d default_config 1 (load_alert (JNum 4) 5),
            attempt_for env d default_config 2 (swap_alert 60),
            attempt_for env d default_config 3
              (disk_alert (JNum 90) example_disk_usage ''/''),
            attempt_for env d default_config 4 (process_alert (16, ''f'', 90))]) \<and>
         alert_history s =
           [''cpu_high'' \<mapsto> b, ''load_high'' \<mapsto> b + 1, ''swap_high'' \<mapsto> b + 2,
            ''disk_high'' \<mapsto> b + 3, ''process_high_cpu'' \<mapsto> b + 4] \<and>
         config s = default_config"
proof -
  have cf: "config fresh_system = default_config"
    by (simp add: fresh_system_def)
  have "run_system_check env fresh_system =
          alert_loop env d 0 (all_alerts d) (fresh_system\<lparr>alert_history := Map.empty\<rparr>) []"
    unfolding run_system_check_def cf m assms(1)
    by (simp add: assms(2) fresh_system_history [symmetric])
  then have "b = 1000 \<or> b = 1010 \<longrightarrow> ?thesis"
    unfolding assms(2)
    by (auto simp del: alert_loop.simps(2)
          simp add: alert_loop_default_step t history_get_def eval_nat_numeral cf)
  with b show ?thesis by blast
qed

theorem same_cycle_exclusive_witness:
  "cooldown_period (config fresh_system) = Some 300 \<and>
   (\<exists>d r s att.
      run_checks (config fresh_system) (metrics example_env) = Inr d \<and>
      run_system_check example_env fresh_system = (r, s, att) \<and>
      (4::nat) < 5 \<and> 5 < length (all_alerts d) \<and>
      a_type (all_alerts d ! 5) = a_type (all_alerts d ! 4) \<and>
      time_time example_env 5 - time_time example_env 4 \<le> 300 \<and>
      admitted att 4 \<and> \<not> admitted att 5 \<and> r = None)"
proof -
  have c: "cooldown_period (config fresh_system) = Some 300"
    by (simp add: fresh_system_def cooldown_default)
  from example_candidates obtain d
    where rc: "run_checks default_config example_metrics = Inr d"
      and al: "all_alerts d =
       [cpu_alert (JNum 80) 97, load_alert (JNum 4) 5, swap_alert 60,
        disk_alert (JNum 90) example_disk_usage ''/'',
        process_alert (16, ''f'', 90), process_alert (15, ''e'', 80),
        process_alert (13, ''c'', 70), process_alert (17, ''g'', 65),
        process_alert (11, ''a'', 60)]"
    by blast
  have em: "metrics example_env = example_metrics"
    and et: "\<And>k. time_time example_env k = 1000 + real k"
    by (simp_all add: example_env_def)
  have b: "(1000::real) = 1000 \<or> (1000::real) = 1010" by simp
  from example_cycle [OF rc al em et b] obtain s
    where run: "run_system_check example_env fresh_system = (None, s,
           [attempt_for example_env d default_config 0 (cpu_alert (JNum 80) 97),
            attempt_for example_env d default_config 1 (load_alert (JNum 4) 5),
            attempt_for example_env d default_config 2 (swap_alert 60),
            attempt_for example_env d default_config 3
              (disk_alert (JNum 90) example_disk_usage ''/''),
            attempt_for example_env d default_config 4 (process_alert (16, ''f'', 90))])"
      (is "_ = (None, s, ?att)")
    by blast
  have rc': "run_checks (config fresh_system) (metrics example_env) = Inr d"
    using rc by (simp add: fresh_system_def example_env_def)
  have lt: "(4::nat) < 5" by simp
  have len: "5 < length (all_alerts d)" by (simp add: al)
  have ty: "a_type (all_alerts d ! 5) = a_type (all_alerts d ! 4)" by (simp add: al)
  have adm: "admitted ?att 4" by (simp add: admitted_def)
  have tm: "time_time example_env 5 - time_time example_env 4 \<le> 300"
    by (simp add: example_env_def)
  have win: "\<forall>m. 4 < m \<and> m \<le> 5 \<and> a_type (all_alerts d ! m) = a_type (all_alerts d ! 4) \<longrightarrow>
           time_time example_env m - time_time example_env 4 \<le> 300"
    by (auto simp: example_env_def)
  have "\<not> admitted ?att 5"
    by (rule same_cycle_exclusive [OF c rc' run lt len ty adm win, THEN conjunct1])
  with c rc' run lt len ty adm tm show ?thesis by blast
qed

section \<open>Failed notifications\<close>











section \<open>Separate invocations\<close>

text \<open>The first candidate of an alert type in a cycle is admitted exactly when the clock
  is more than the cooldown period above the timestamp stored before the cycle.\<close>

lemma alert_loop_first_of_type:
  assumes "cooldown_period (config self) = Some c"
    and "alert_loop env d k as self att = (r, self', att')"
    and "\<forall>x \<in> set att. at_index x < k"
    and "i < length as"
    and "\<forall>m < i. a_type (as ! m) \<noteq> a_type (as ! i)"
  shows "admitted att' (k + i) \<longleftrightarrow>
           time_time env (k + i) - history_get (alert_history self) (a_type (as ! i)) > c"
  using assms
proof (induction as arbitrary: k self att i)
  case Nil
  then show ?case by simp
next
  case (Cons a0 rest)
  note step = alert_loop_step [OF Cons.prems(1), of env d k a0 rest att]
  let ?s = "self\<lparr>alert_history := (alert_history self)(a_type a0 \<mapsto> time_time env k)\<rparr>"
  let ?x = "attempt_for env d (config self) k a0"
  have c: "cooldown_period (config ?s) = Some c" using Cons.prems(1) by simp
  show ?case
  proof (cases i)
    case 0
    show ?thesis
    proof (cases "time_time env k - history_get (alert_history self) (a_type a0) > c")
      case True
      have l: "alert_loop env d (Suc k) rest ?s (att @ [?x]) = (r, self', att')"
        using Cons.prems(2) step True by simp
      from alert_loop_shape [OF c l] have "?x \<in> set att'" by auto
      then have "admitted att' k" by (force simp: admitted_def)
      with True 0 show ?thesis by simp
    next
      case False
      have l: "alert_loop env d (Suc k) rest self att = (r, self', att')"
        using Cons.prems(2) step False by simp
      have "\<not> admitted att' k"
      proof
        assume "admitted att' k"
        then obtain x where x: "x \<in> set att'" and ix: "at_index x = k"
          by (auto simp: admitted_def)
        have "x \<notin> set att" using Cons.prems(3) ix by auto
        from alert_loop_indices [OF Cons.prems(1) l x this] ix show False by simp
      qed
      with False 0 show ?thesis by simp
    qed
  next
    case (Suc i')
    have il: "i' < length rest" using Cons.prems(4) Suc by simp
    have ne: "a_type a0 \<noteq> a_type (rest ! i')"
      using Cons.prems(5) [rule_format, of 0] Suc by simp
    have fr: "\<forall>m < i'. a_type (rest ! m) \<noteq> a_type (rest ! i')"
      using Cons.prems(5) Suc by (auto dest: spec [of _ "Suc m" for m])
    show ?thesis
    proof (cases "time_time env k - history_get (alert_history self) (a_type a0) > c")
      case True
      have l: "alert_loop env d (Suc k) rest ?s (att @ [?x]) = (r, self', att')"
        using Cons.prems(2) step True by simp
      have old: "\<forall>x \<in> set (att @ [?x]). at_index x < Suc k"
        using Cons.prems(3) by (auto simp: less_Suc_eq)
      have h: "history_get (alert_history ?s) (a_type (rest ! i')) =
               history_get (alert_history self) (a_type (rest ! i'))"
        using ne by (simp add: history_get_def)
      from Cons.IH [OF c l old il fr, unfolded h] show ?thesis using Suc by simp
    next
      case False
      have l: "alert_loop env d (Suc k) rest self att = (r, self', att')"
        using Cons.prems(2) step False by simp
      have old: "\<forall>x \<in> set att. at_index x < Suc k"
        using Cons.prems(3) by (auto simp: less_Suc_eq)
      from Cons.IH [OF Cons.prems(1) l old il fr] show ?thesis using Suc by simp
    qed
  qed
qed

lemma run_system_check_first_of_type:
  assumes "cooldown_period (config self) = Some c"
    and "run_checks (config self) (metrics env) = Inr d"
    and "i < length (all_alerts d)"
    and "\<forall>m < i. a_type (all_alerts d ! m) \<noteq> a_type (all_alerts d ! i)"
  shows "fst (run_system_check env self) = None \<and>
         (admitted (snd (snd (run_system_check env self))) i \<longleftrightarrow>
            time_time env i - history_get (alert_history self) (a_type (all_alerts d ! i)) > c)"
proof -
  obtain r s att where l: "alert_loop env d 0 (all_alerts d) self [] = (r, s, att)"
    by (cases "alert_loop env d 0 (all_alerts d) self []") auto
  have ne: "all_alerts d \<noteq> []" using assms(3) by auto
  have run: "run_system_check env self = (r, s, att)"
    using assms(2) ne l by (simp add: run_system_check_def)
  from alert_loop_shape [OF assms(1) l] have "r = None" by simp
  moreover from alert_loop_first_of_type [OF assms(1) l _ assms(3,4)]
  have "admitted att i \<longleftrightarrow>
          time_time env i - history_get (alert_history self) (a_type (all_alerts d ! i)) > c"
    by simp
  ultimately show ?thesis using run by simp
qed

lemma main_check_eq:
  assumes "init fs config_file = Inr (alert_system, fs')"
  shows "main_check fs config_file env =
           (fst (run_system_check env alert_system), fs',
            snd (snd (run_system_check env alert_system)))"
  using assms by (simp add: main_check_def split: prod.splits)

text \<open>
  Claim C5, as the program has it. An invocation with \<^verbatim>\<open>--check\<close> builds its object
  with an empty \<^verbatim>\<open>alert_history\<close>, and all it receives from an earlier invocation is
  the file system. With a numeric cooldown period \<open>c\<close> and checks that return, the
  invocation ends without an exception, and the first candidate of each alert type is
  admitted exactly when the clock at its gate call is above \<open>c\<close>: whether an earlier
  invocation admitted the same alert within the period has no part in it.
\<close>

theorem check_invocation_starts_fresh:
  assumes "init fs config_file = Inr (alert_system, fs')"
    and "cooldown_period (config alert_system) = Some c"
    and "run_checks (config alert_system) (metrics env) = Inr d"
    and "i < length (all_alerts d)"
    and "\<forall>m < i. a_type (all_alerts d ! m) \<noteq> a_type (all_alerts d ! i)"
  shows "alert_history alert_system = Map.empty \<and>
         (\<exists>att. main_check fs config_file env = (None, fs', att) \<and>
            (admitted att i \<longleftrightarrow> time_time env i > c))"
proof -
  have h: "alert_history alert_system = Map.empty"
    using assms(1) by (auto simp: init_def split: sum.splits)
  from run_system_check_first_of_type [OF assms(2,3,4,5)] h
  have "fst (run_system_check env alert_system) = None"
    and "admitted (snd (snd (run_system_check env alert_system))) i \<longleftrightarrow> time_time env i > c"
    by (simp_all add: history_get_def)
  with h main_check_eq [OF assms(1), of env] show ?thesis by simp
qed

lemma init_default_config_fs:
  "init default_config_fs ''alert_config.json'' = Inr (fresh_system, default_config_fs)"
  by (simp add: init_def load_config_def default_config_fs_def fresh_system_def
        default_config_def)

lemma init_no_config_fs:
  "init Map.empty ''alert_config.json'' = Inr (fresh_system, default_config_fs)"
  by (simp add: init_no_file default_config_fs_def)

lemma later_env_simps:
  "metrics later_env = example_metrics" "time_time later_env k = 1010 + real k"
  by (simp_all add: later_env_def example_env_def)

lemma example_env_simps:
  "metrics example_env = example_metrics" "time_time example_env k = 1000 + real k"
  by (simp_all add: example_env_def)

theorem check_invocation_starts_fresh_witness:
  "init default_config_fs ''alert_config.json'' = Inr (fresh_system, default_config_fs) \<and>
   cooldown_period (config fresh_system) = Some 300 \<and>
   (\<exists>d att.
      run_checks (config fresh_system) (metrics later_env) = Inr d \<and>
      4 < length (all_alerts d) \<and>
      list_all (\<lambda>m. a_type (all_alerts d ! m) \<noteq> a_type (all_alerts d ! 4)) [0, 1, 2, 3] \<and>
      main_check default_config_fs ''alert_config.json'' later_env =
        (None, default_config_fs, att) \<and>
      time_time later_env 4 > 300 \<and> admitted att 4)"
proof -
  note i = init_default_config_fs
  have c: "cooldown_period (config fresh_system) = Some 300"
    by (simp add: fresh_system_def cooldown_default)
  from example_candidates obtain d
    where rc: "run_checks default_config example_metrics = Inr d"
      and al: "all_alerts d =
       [cpu_alert (JNum 80) 97, load_alert (JNum 4) 5, swap_alert 60,
        disk_alert (JNum 90) example_disk_usage ''/'',
        process_alert (16, ''f'', 90), process_alert (15, ''e'', 80),
        process_alert (13, ''c'', 70), process_alert (17, ''g'', 65),
        process_alert (11, ''a'', 60)]"
    by blast
  have rc': "run_checks (config fresh_system) (metrics later_env) = Inr d"
    using rc by (simp add: fresh_system_def later_env_simps)
  have len: "4 < length (all_alerts d)" by (simp add: al)
  have first: "\<forall>m < 4. a_type (all_alerts d ! m) \<noteq> a_type (all_alerts d ! 4)"
  proof (intro allI impI)
    fix m :: nat assume "m < 4"
    then consider "m = 0" | "m = 1" | "m = 2" | "m = 3" by linarith
    then show "a_type (all_alerts d ! m) \<noteq> a_type (all_alerts d ! 4)"
      by cases (simp_all add: al)
  qed
  have first': "list_all (\<lambda>m. a_type (all_alerts d ! m) \<noteq> a_type (all_alerts d ! 4)) [0, 1, 2, 3]"
    by (simp add: al)
  have t: "time_time later_env 4 > 300" by (simp add: later_env_simps)
  from check_invocation_starts_fresh [OF i c rc' len first]
  obtain att where m: "main_check default_config_fs ''alert_config.json'' later_env =
        (None, default_config_fs, att)"
    and a: "admitted att 4 \<longleftrightarrow> time_time later_env 4 > 300"
    by blast
  from a t have adm: "admitted att 4" by simp
  show ?thesis
    by (intro conjI exI [of _ d] exI [of _ att]) (fact i c rc' len first' m t adm)+
qed

text \<open>
  Two invocations with \<^verbatim>\<open>--check\<close> on the same host, the second ten seconds after the
  first and on the file system the first one left, with the default cooldown period of
  300 seconds: both attempt the same five emails, the CPU alert among them. The second
  invocation's alerts are not suppressed.
\<close>

theorem check_twice_within_window_counterexample:
  "cooldown_period default_config = Some 300 \<and>
   metrics later_env = metrics example_env \<and>
   time_time later_env 8 - time_time example_env 0 \<le> 300 \<and>
   fst (main_check Map.empty ''alert_config.json'' example_env) = None \<and>
   fst (snd (main_check Map.empty ''alert_config.json'' example_env)) = default_config_fs \<and>
   attempted_types (snd (snd (main_check Map.empty ''alert_config.json'' example_env))) =
     [''cpu_high'', ''load_high'', ''swap_high'', ''disk_high'', ''process_high_cpu''] \<and>
   fst (main_check default_config_fs ''alert_config.json'' later_env) = None \<and>
   attempted_types (snd (snd (main_check default_config_fs ''alert_config.json'' later_env))) =
     [''cpu_high'', ''load_high'', ''swap_high'', ''disk_high'', ''process_high_cpu'']"
proof -
  from example_candidates obtain d
    where rc: "run_checks default_config example_metrics = Inr d"
      and al: "all_alerts d =
       [cpu_alert (JNum 80) 97, load_alert (JNum 4) 5, swap_alert 60,
        disk_alert (JNum 90) example_disk_usage ''/'',
        process_alert (16, ''f'', 90), process_alert (15, ''e'', 80),
        process_alert (13, ''c'', 70), process_alert (17, ''g'', 65),
        process_alert (11, ''a'', 60)]"
    by blast
  have b1: "(1000::real) = 1000 \<or> (1000::real) = 1010"
    and b2: "(1010::real) = 1000 \<or> (1010::real) = 1010"
    by simp_all
  from example_cycle [OF rc al example_env_simps b1] obtain s1
    where run1: "run_system_check example_env fresh_system = (None, s1,
           [attempt_for example_env d default_config 0 (cpu_alert (JNum 80) 97),
            attempt_for example_env d default_config 1 (load_alert (JNum 4) 5),
            attempt_for example_env d default_config 2 (swap_alert 60),
            attempt_for example_env d default_config 3
              (disk_alert (JNum 90) example_disk_usage ''/''),
            attempt_for example_env d default_config 4 (process_alert (16, ''f'', 90))])"
    by blast
  from example_cycle [OF rc al later_env_simps b2] obtain s2
    where run2: "run_system_check later_env fresh_system = (None, s2,
           [attempt_for later_env d default_config 0 (cpu_alert (JNum 80) 97),
            attempt_for later_env d default_config 1 (load_alert (JNum 4) 5),
            attempt_for later_env d default_config 2 (swap_alert 60),
            attempt_for later_env d default_config 3
              (disk_alert (JNum 90) example_disk_usage ''/''),
            attempt_for later_env d default_config 4 (process_alert (16, ''f'', 90))])"
    by blast
  have m1: "main_check Map.empty ''alert_config.json'' example_env =
      (None, default_config_fs,
           [attempt_for example_env d default_config 0 (cpu_alert (JNum 80) 97),
            attempt_for example_env d default_config 1 (load_alert (JNum 4) 5),
            attempt_for example_env d default_config 2 (swap_alert 60),
            attempt_for example_env d default_config 3
              (disk_alert (JNum 90) example_disk_usage ''/''),
            attempt_for example_env d default_config 4 (process_alert (16, ''f'', 90))])"
    by (simp add: main_check_eq [OF init_no_config_fs] run1)
  have m2: "main_check default_config_fs ''alert_config.json'' later_env =
      (None, default_config_fs,
           [attempt_for later_env d default_config 0 (cpu_alert (JNum 80) 97),
            attempt_for later_env d default_config 1 (load_alert (JNum 4) 5),
            attempt_for later_env d default_config 2 (swap_alert 60),
            attempt_for later_env d default_config 3
              (disk_alert (JNum 90) example_disk_usage ''/''),
            attempt_for later_env d default_config 4 (process_alert (16, ''f'', 90))])"
    by (simp add: main_check_eq [OF init_default_config_fs] run2)
  show ?thesis
    unfolding m1 m2
    by (simp add: cooldown_default later_env_simps example_env_simps attempted_types_def)
qed

end
